theory Spec2Isabelle
  imports Main "HOL-Library.Char_ord" "HOL-Library.List_Lexorder"
begin

section \<open>Alert rows and notification settings\<close>

text \<open>
  The row of table \<open>smart_alerts\<close>, as interface \<open>SmartAlert\<close> of
  \<open>useNotifications.tsx\<close> declares it. Nullable columns are options. The creation
  timestamp is carried as the instant it denotes, in milliseconds since the epoch (what
  \<open>new Date(created_at).getTime()\<close> reads). Texts are byte strings (UTF-8).
\<close>

record smart_alert =
  sa_id :: string
  sa_title :: "string option"
  sa_type :: string
  sa_message :: string
  sa_severity :: string
  sa_category_id :: "string option"
  sa_is_read :: "bool option"
  sa_created_at :: int
  sa_related_id :: "string option"
  sa_related_type :: "string option"

record notification_settings =
  email_alerts :: bool
  action_reminders :: bool
  problem_escalation :: bool
  kpi_alerts :: bool

text \<open>The initial value of the \<open>settings\<close> state of the hook.\<close>

definition default_settings :: notification_settings where
  "default_settings =
     \<lparr>email_alerts = True, action_reminders = True, problem_escalation = True,
      kpi_alerts = True\<rparr>"

section \<open>The notification dispatcher (useNotifications.tsx)\<close>

text \<open>
  \<open>shouldNotify\<close> and \<open>canSeeAlert\<close> are the two closures of the handler of the
  realtime \<open>INSERT\<close> event; the values they close over (\<open>settings\<close>, \<open>role\<close>,
  \<open>newAlert\<close>) are arguments here. The role of the session is a string or null.
\<close>

definition shouldNotify :: "notification_settings \<Rightarrow> smart_alert \<Rightarrow> bool" where
  "shouldNotify settings newAlert =
     (if sa_type newAlert = ''kpi_critical'' \<and> \<not> kpi_alerts settings then False
      else if sa_type newAlert = ''action_overdue'' \<and> \<not> action_reminders settings then False
      else if sa_type newAlert = ''problem_critical'' \<and> \<not> problem_escalation settings then False
      else True)"

definition canSeeAlert :: "string option \<Rightarrow> bool" where
  "canSeeAlert role = (if role = Some ''admin'' then False else True)"

datatype toast_level = ToastError | ToastWarning | ToastInfo

record toast =
  toast_level :: toast_level
  toast_title :: string
  toast_description :: string
  toast_duration :: nat

text \<open>\<open>newAlert.title || 'Nouvelle alerte'\<close>: null and the empty string are both falsy.\<close>

definition title_or_default :: "string option \<Rightarrow> string" where
  "title_or_default t =
     (case t of None \<Rightarrow> ''Nouvelle alerte''
      | Some s \<Rightarrow> if s = [] then ''Nouvelle alerte'' else s)"

definition make_toast :: "smart_alert \<Rightarrow> toast" where
  "make_toast newAlert =
     (let severity = sa_severity newAlert;
          title = title_or_default (sa_title newAlert);
          message = sa_message newAlert
      in if severity = ''critical'' \<or> severity = ''high'' then
           \<lparr>toast_level = ToastError, toast_title = title, toast_description = message,
            toast_duration = 8000\<rparr>
         else if severity = ''warning'' \<or> severity = ''medium'' then
           \<lparr>toast_level = ToastWarning, toast_title = title, toast_description = message,
            toast_duration = 6000\<rparr>
         else
           \<lparr>toast_level = ToastInfo, toast_title = title, toast_description = message,
            toast_duration = 5000\<rparr>)"

text \<open>
  The handler of one insert event: the toast it shows, if any, and the query keys it
  invalidates (always both).
\<close>

definition on_insert ::
  "notification_settings \<Rightarrow> string option \<Rightarrow> smart_alert \<Rightarrow> toast option \<times> string list" where
  "on_insert settings role newAlert =
     (if shouldNotify settings newAlert \<and> canSeeAlert role then Some (make_toast newAlert)
      else None,
      [''smart-alerts-unread'', ''smart-alerts''])"

text \<open>An insert event for a \<open>kpi_warning\<close> alert, as the generator writes it.\<close>

definition kpi_warning_event :: smart_alert where
  "kpi_warning_event =
     \<lparr>sa_id = ''a1'', sa_title = Some ''KPI en alerte: Scrap Rate'',
      sa_type = ''kpi_warning'', sa_message = ''orange'', sa_severity = ''high'',
      sa_category_id = None, sa_is_read = Some False, sa_created_at = 0,
      sa_related_id = Some ''k1'', sa_related_type = Some ''kpi''\<rparr>"

section \<open>The alert generator (edge function)\<close>

subsection \<open>Rows read by the generator\<close>

text \<open>
  The columns are the ones the queries select. \<open>kv_kpi\<close> is the embedded row
  \<open>kpi:kpis(id, name, category_id)\<close>, null when there is none. \<open>kv_value\<close> is the
  numeric value as the template literal renders it. Calendar dates (\<open>due_date\<close>,
  \<open>today\<close>) are ISO-8601 texts \<open>YYYY-MM-DD\<close>, which the order on strings
  compares as dates; timestamps are instants in milliseconds since the epoch.
\<close>

record kpi =
  kpi_id :: string
  kpi_name :: string
  kpi_category_id :: "string option"

record kpi_value =
  kv_id :: string
  kv_kpi_id :: string
  kv_value :: string
  kv_status :: string
  kv_trend :: string
  kv_recorded_at :: int
  kv_kpi :: "kpi option"

record action =
  act_id :: string
  act_title :: string
  act_due_date :: string
  act_priority :: string
  act_status :: string
  act_category_id :: "string option"

record problem =
  pb_id :: string
  pb_title :: string
  pb_severity :: string
  pb_status :: string
  pb_category_id :: "string option"
  pb_created_at :: int

text \<open>Interface \<open>AlertData\<close>: a candidate alert.\<close>

record alert_data =
  ad_type :: string
  ad_title :: string
  ad_message :: string
  ad_severity :: string
  ad_related_id :: "string option"
  ad_related_type :: "string option"
  ad_category_id :: "string option"

subsection \<open>Texts\<close>

definition dq :: string where "dq = [CHR 0x22]"
definition e_acute :: string where "e_acute = [CHR 0xC3, CHR 0xA9]"
definition e_grave :: string where "e_grave = [CHR 0xC3, CHR 0xA8]"
definition e_circ :: string where "e_circ = [CHR 0xC3, CHR 0xAA]"
definition a_grave :: string where "a_grave = [CHR 0xC3, CHR 0xA0]"

text \<open>The decimal rendering of an integer in a template literal.\<close>

function show_nat :: "nat \<Rightarrow> string" where
  "show_nat n =
     (if n < 10 then [char_of (48 + n)]
      else show_nat (n div 10) @ [char_of (48 + n mod 10)])"
  by pat_completeness auto
termination
  by (relation "measure (\<lambda>n. n)") auto

declare show_nat.simps [simp del]

definition show_int :: "int \<Rightarrow> string" where
  "show_int i = (if i < 0 then ''-'' @ show_nat (nat (- i)) else show_nat (nat i))"

subsection \<open>The KPI pass\<close>

text \<open>
  The loop that fills the \<open>Map\<close> \<open>latestByKpi\<close>: a reading is stored only when its
  \<open>kpi_id\<close> is not a key yet. The map is an association list in insertion order, the
  order in which a \<open>Map\<close> is iterated.
\<close>

fun group_latest :: "(string \<times> kpi_value) list \<Rightarrow> kpi_value list \<Rightarrow> (string \<times> kpi_value) list" where
  "group_latest m [] = m"
| "group_latest m (v # rest) =
     group_latest (if kv_kpi_id v \<in> set (map fst m) then m else m @ [(kv_kpi_id v, v)]) rest"

definition latestByKpi :: "kpi_value list \<Rightarrow> (string \<times> kpi_value) list" where
  "latestByKpi kpiValues = group_latest [] kpiValues"

definition kpi_critical_alert :: "string \<Rightarrow> kpi_value \<Rightarrow> kpi \<Rightarrow> alert_data" where
  "kpi_critical_alert kpiId latestValue k =
     \<lparr>ad_type = ''kpi_critical'',
      ad_title = ''KPI critique: '' @ kpi_name k,
      ad_message = ''Le KPI '' @ dq @ kpi_name k @ dq
        @ '' est en zone critique (rouge). Valeur actuelle: '' @ kv_value latestValue,
      ad_severity = ''critical'',
      ad_related_id = Some kpiId,
      ad_related_type = Some ''kpi'',
      ad_category_id = kpi_category_id k\<rparr>"

definition kpi_warning_alert :: "string \<Rightarrow> kpi_value \<Rightarrow> kpi \<Rightarrow> alert_data" where
  "kpi_warning_alert kpiId latestValue k =
     \<lparr>ad_type = ''kpi_warning'',
      ad_title = ''KPI en alerte: '' @ kpi_name k,
      ad_message = ''Le KPI '' @ dq @ kpi_name k @ dq
        @ '' est en zone d'alerte (orange). Valeur actuelle: '' @ kv_value latestValue,
      ad_severity = ''high'',
      ad_related_id = Some kpiId,
      ad_related_type = Some ''kpi'',
      ad_category_id = kpi_category_id k\<rparr>"

definition kpi_trend_alert :: "string \<Rightarrow> kpi_value \<Rightarrow> kpi \<Rightarrow> alert_data" where
  "kpi_trend_alert kpiId latestValue k =
     \<lparr>ad_type = ''kpi_trend'',
      ad_title = ''Tendance n'' @ e_acute @ ''gative: '' @ kpi_name k,
      ad_message = ''Le KPI '' @ dq @ kpi_name k @ dq
        @ '' montre une tendance '' @ a_grave @ '' la baisse.'',
      ad_severity = ''medium'',
      ad_related_id = Some kpiId,
      ad_related_type = Some ''kpi'',
      ad_category_id = kpi_category_id k\<rparr>"

text \<open>
  The body of the loop over the entries of \<open>latestByKpi\<close>: nothing when the embedded
  KPI row is null (\<open>continue\<close>), else up to three alerts, in this order.
\<close>

definition kpi_alerts_of :: "string \<times> kpi_value \<Rightarrow> alert_data list" where
  "kpi_alerts_of entry =
     (let kpiId = fst entry; latestValue = snd entry
      in case kv_kpi latestValue of
           None \<Rightarrow> []
         | Some k \<Rightarrow>
             (if kv_status latestValue = ''red''
              then [kpi_critical_alert kpiId latestValue k] else [])
             @ (if kv_status latestValue = ''orange''
                then [kpi_warning_alert kpiId latestValue k] else [])
             @ (if kv_trend latestValue = ''down'' \<and> kv_status latestValue \<noteq> ''green''
                then [kpi_trend_alert kpiId latestValue k] else []))"

definition kpi_pass :: "kpi_value list \<Rightarrow> alert_data list" where
  "kpi_pass kpiValues = concat (map kpi_alerts_of (latestByKpi kpiValues))"

subsection \<open>The two passes over the actions\<close>

text \<open>
  Each pass is a query, a filter of the table, and a loop that pushes one alert for every
  row the query returns.
\<close>

definition overdue_query :: "string \<Rightarrow> action list \<Rightarrow> action list" where
  "overdue_query today rows =
     filter (\<lambda>a. act_due_date a < today \<and> act_status a \<noteq> ''completed'') rows"

definition overdue_alert :: "action \<Rightarrow> alert_data" where
  "overdue_alert a =
     (let isUrgent = (act_priority a = ''urgent'' \<or> act_priority a = ''high'')
      in \<lparr>ad_type = ''action_overdue'',
          ad_title = ''Action en retard: '' @ act_title a,
          ad_message = ''L'action '' @ dq @ act_title a @ dq @ '' est en retard (''
            @ e_acute @ ''ch'' @ e_acute @ ''ance: '' @ act_due_date a @ '')'',
          ad_severity = (if isUrgent then ''critical'' else ''high''),
          ad_related_id = Some (act_id a),
          ad_related_type = Some ''action'',
          ad_category_id = act_category_id a\<rparr>)"

definition overdue_pass :: "string \<Rightarrow> action list \<Rightarrow> alert_data list" where
  "overdue_pass today rows = map overdue_alert (overdue_query today rows)"

definition urgent_query :: "string \<Rightarrow> action list \<Rightarrow> action list" where
  "urgent_query today rows =
     filter (\<lambda>a. act_due_date a = today
                \<and> (act_priority a = ''urgent'' \<or> act_priority a = ''high'')
                \<and> act_status a \<noteq> ''completed'') rows"

definition urgent_alert :: "action \<Rightarrow> alert_data" where
  "urgent_alert a =
     \<lparr>ad_type = ''action_urgent'',
      ad_title = ''Action urgente aujourd'hui: '' @ act_title a,
      ad_message = ''L'action urgente '' @ dq @ act_title a @ dq @ '' doit ''
        @ e_circ @ ''tre termin'' @ e_acute @ ''e aujourd'hui.'',
      ad_severity = ''high'',
      ad_related_id = Some (act_id a),
      ad_related_type = Some ''action'',
      ad_category_id = act_category_id a\<rparr>"

definition urgent_pass :: "string \<Rightarrow> action list \<Rightarrow> alert_data list" where
  "urgent_pass today rows = map urgent_alert (urgent_query today rows)"

subsection \<open>The pass over the problems\<close>

definition problems_query :: "problem list \<Rightarrow> problem list" where
  "problems_query rows =
     filter (\<lambda>p. (pb_severity p = ''critical'' \<or> pb_severity p = ''high'')
                \<and> pb_status p \<noteq> ''resolved'') rows"

definition ms_per_day :: int where
  "ms_per_day = 1000 * 60 * 60 * 24"

text \<open>
  \<open>Math.floor((Date.now() - createdDate.getTime()) / (1000 * 60 * 60 * 24))\<close>: both times
  are whole milliseconds, so the floor of the quotient is the integer quotient rounded
  down, which is \<open>div\<close> on \<open>int\<close>.
\<close>

definition daysSinceCreation :: "int \<Rightarrow> problem \<Rightarrow> int" where
  "daysSinceCreation now p = (now - pb_created_at p) div ms_per_day"

definition isOld :: "int \<Rightarrow> problem \<Rightarrow> bool" where
  "isOld now p = (daysSinceCreation now p > 3)"

definition problem_alert :: "int \<Rightarrow> problem \<Rightarrow> alert_data" where
  "problem_alert now p =
     (let isCritical = (pb_severity p = ''critical'')
      in \<lparr>ad_type = (if isOld now p then ''problem_unresolved'' else ''problem_critical''),
          ad_title = ''Probl'' @ e_grave @ ''me ''
            @ (if isCritical then ''critique'' else ''important'') @ '': '' @ pb_title p,
          ad_message =
            (if isOld now p
             then ''Le probl'' @ e_grave @ ''me '' @ dq @ pb_title p @ dq @ '' n'est pas r''
               @ e_acute @ ''solu depuis '' @ show_int (daysSinceCreation now p) @ '' jours.''
             else ''Probl'' @ e_grave @ ''me de gravit'' @ e_acute @ '' ''
               @ (if isCritical then ''critique'' else e_acute @ ''lev'' @ e_acute @ ''e'')
               @ '': '' @ dq @ pb_title p @ dq),
          ad_severity = (if isCritical then ''critical'' else ''high''),
          ad_related_id = Some (pb_id p),
          ad_related_type = Some ''problem'',
          ad_category_id = pb_category_id p\<rparr>)"

definition problems_pass :: "int \<Rightarrow> problem list \<Rightarrow> alert_data list" where
  "problems_pass now rows = map (problem_alert now) (problems_query rows)"

subsection \<open>The services the handler calls\<close>

text \<open>
  A value that a call reports in its \<open>error\<close> field or that is thrown: an instance of
  \<open>Error\<close>, or any other object; both have a \<open>message\<close>.
\<close>

datatype js_error = ErrorInstance string | ErrorObject string

fun error_message :: "js_error \<Rightarrow> string" where
  "error_message (ErrorInstance m) = m"
| "error_message (ErrorObject m) = m"

text \<open>
  The tables the handler reads and writes. \<open>kpi_values\<close> holds the readings in the order
  in which the query \<open>order('recorded_at', {ascending: false})\<close> returns them.
  \<open>next_id\<close> is the source of the identifiers that storage gives to new rows.
\<close>

record store =
  kpi_values :: "kpi_value list"
  actions :: "action list"
  problems :: "problem list"
  smart_alerts :: "smart_alert list"
  next_id :: nat

text \<open>
  What one invocation gets from outside the tables: the clock (\<open>now\<close> is
  \<open>Date.now()\<close>, \<open>today\<close> is \<open>new Date().toISOString().split('T')[0]\<close>; every
  reading of the clock in one invocation gives the same instant), the answer of
  \<open>auth.getUser()\<close> for a given Authorization header (user id and error), the answer of
  the \<open>user_roles\<close> lookup \<open>.single()\<close> for a given user id (role and error), and, for
  each of the seven calls on the tables, the error it reports if it fails.
\<close>

record env =
  now :: int
  today :: string
  getUser :: "string \<Rightarrow> string option \<times> js_error option"
  role_single :: "string \<Rightarrow> string option \<times> js_error option"
  kpiError :: "js_error option"
  actionsError :: "js_error option"
  urgentError :: "js_error option"
  problemsError :: "js_error option"
  deleteError :: "js_error option"
  existingError :: "js_error option"
  insertError :: "js_error option"

text \<open>
  What the handler does besides answering: the lines it writes to the console and the
  calls it awaits, in order. A table is named as in \<open>from(...)\<close>.
\<close>

datatype logged = LText string | LUndefined | LError js_error | LSummary nat nat nat

datatype event =
    ConsoleLog string "logged list"
  | ConsoleError string "logged list"
  | AuthGetUser
  | Select string
  | Delete string
  | Insert string

text \<open>
  The response: its status (200 when none is given) and its JSON body. Every response
  carries the CORS headers.
\<close>

datatype body =
    NullBody
  | ErrorBody string
  | SuccessBody nat nat nat
  | FailureBody string

record response =
  resp_status :: nat
  resp_body :: body

record request =
  req_method :: string
  req_authorization :: "string option"

subsection \<open>The steps of the generation\<close>

text \<open>
  Each candidate pass: the call, then either the error written to the console and no
  candidate, or the candidates of the rows.
\<close>

definition kpi_step :: "env \<Rightarrow> store \<Rightarrow> event list \<times> alert_data list" where
  "kpi_step e s =
     (case kpiError e of
        Some err \<Rightarrow>
          ([ConsoleLog ''Checking KPI alerts...'' [], Select ''kpi_values'',
            ConsoleError ''Error fetching KPI values:'' [LError err]], [])
      | None \<Rightarrow>
          ([ConsoleLog ''Checking KPI alerts...'' [], Select ''kpi_values''],
           kpi_pass (kpi_values s)))"

definition overdue_step :: "env \<Rightarrow> store \<Rightarrow> event list \<times> alert_data list" where
  "overdue_step e s =
     (case actionsError e of
        Some err \<Rightarrow>
          ([ConsoleLog ''Checking overdue actions...'' [], Select ''actions'',
            ConsoleError ''Error fetching overdue actions:'' [LError err]], [])
      | None \<Rightarrow>
          ([ConsoleLog ''Checking overdue actions...'' [], Select ''actions''],
           overdue_pass (today e) (actions s)))"

definition urgent_step :: "env \<Rightarrow> store \<Rightarrow> event list \<times> alert_data list" where
  "urgent_step e s =
     (case urgentError e of
        Some err \<Rightarrow>
          ([ConsoleLog ''Checking urgent actions due today...'' [], Select ''actions'',
            ConsoleError ''Error fetching urgent actions:'' [LError err]], [])
      | None \<Rightarrow>
          ([ConsoleLog ''Checking urgent actions due today...'' [], Select ''actions''],
           urgent_pass (today e) (actions s)))"

definition problems_step :: "env \<Rightarrow> store \<Rightarrow> event list \<times> alert_data list" where
  "problems_step e s =
     (case problemsError e of
        Some err \<Rightarrow>
          ([ConsoleLog ''Checking critical problems...'' [], Select ''problems'',
            ConsoleError ''Error fetching problems:'' [LError err]], [])
      | None \<Rightarrow>
          ([ConsoleLog ''Checking critical problems...'' [], Select ''problems''],
           problems_pass (now e) (problems s)))"

text \<open>\<open>alertsToCreate\<close> when the four passes are over.\<close>

definition alertsToCreate :: "env \<Rightarrow> store \<Rightarrow> alert_data list" where
  "alertsToCreate e s =
     snd (kpi_step e s) @ snd (overdue_step e s) @ snd (urgent_step e s)
       @ snd (problems_step e s)"

definition candidate_events :: "env \<Rightarrow> store \<Rightarrow> event list" where
  "candidate_events e s =
     fst (kpi_step e s) @ fst (overdue_step e s) @ fst (urgent_step e s)
       @ fst (problems_step e s)"

text \<open>
  The cleanup: \<open>delete().eq('is_read', true).lt('created_at', sevenDaysAgo)\<close>. A failed
  delete removes nothing and is written to the console.
\<close>

definition sevenDaysAgo :: "int \<Rightarrow> int" where
  "sevenDaysAgo t = t - 7 * 24 * 60 * 60 * 1000"

definition old_read :: "int \<Rightarrow> smart_alert \<Rightarrow> bool" where
  "old_read t a = (sa_is_read a = Some True \<and> sa_created_at a < sevenDaysAgo t)"

definition cleanup_step :: "env \<Rightarrow> store \<Rightarrow> event list \<times> store" where
  "cleanup_step e s =
     (case deleteError e of
        Some err \<Rightarrow>
          ([ConsoleLog ''Cleaning up old alerts...'' [], Delete ''smart_alerts'',
            ConsoleError ''Error deleting old alerts:'' [LError err]], s)
      | None \<Rightarrow>
          ([ConsoleLog ''Cleaning up old alerts...'' [], Delete ''smart_alerts''],
           s\<lparr>smart_alerts := filter (\<lambda>a. \<not> old_read (now e) a) (smart_alerts s)\<rparr>))"

text \<open>
  The keys of deduplication, \<open>`${a.type}-${a.related_id}`\<close>: a null \<open>related_id\<close> of a
  stored row renders as \<open>null\<close>, a missing one of a candidate as \<open>undefined\<close>.
\<close>

definition row_key :: "smart_alert \<Rightarrow> string" where
  "row_key a =
     sa_type a @ ''-'' @ (case sa_related_id a of None \<Rightarrow> ''null'' | Some r \<Rightarrow> r)"

definition alert_key :: "alert_data \<Rightarrow> string" where
  "alert_key a =
     ad_type a @ ''-'' @ (case ad_related_id a of None \<Rightarrow> ''undefined'' | Some r \<Rightarrow> r)"

definition unread :: "smart_alert \<Rightarrow> bool" where
  "unread a = (sa_is_read a = Some False)"

text \<open>
  The read of the unread alerts, \<open>existingAlerts?.map(...) || []\<close>: the keys of the
  unread rows, or no key when the read fails.
\<close>

definition existing_step :: "env \<Rightarrow> store \<Rightarrow> event list \<times> string list" where
  "existing_step e s =
     (case existingError e of
        Some err \<Rightarrow>
          ([Select ''smart_alerts'',
            ConsoleError ''Error fetching existing alerts:'' [LError err]], [])
      | None \<Rightarrow>
          ([Select ''smart_alerts''], map row_key (filter unread (smart_alerts s))))"

definition newAlerts :: "string list \<Rightarrow> alert_data list \<Rightarrow> alert_data list" where
  "newAlerts existingSet cands = filter (\<lambda>alert. alert_key alert \<notin> set existingSet) cands"

text \<open>
  The row stored for a candidate, \<open>{...alert, is_read: false}\<close>; the identifier and the
  creation timestamp are the defaults of storage.
\<close>

definition new_row :: "int \<Rightarrow> nat \<Rightarrow> alert_data \<Rightarrow> smart_alert" where
  "new_row t n a =
     \<lparr>sa_id = show_nat n, sa_title = Some (ad_title a), sa_type = ad_type a,
      sa_message = ad_message a, sa_severity = ad_severity a,
      sa_category_id = ad_category_id a, sa_is_read = Some False, sa_created_at = t,
      sa_related_id = ad_related_id a, sa_related_type = ad_related_type a\<rparr>"

definition insert_rows :: "int \<Rightarrow> alert_data list \<Rightarrow> store \<Rightarrow> store" where
  "insert_rows t rows s =
     s\<lparr>smart_alerts :=
          smart_alerts s @ map2 (new_row t) [next_id s ..< next_id s + length rows] rows,
       next_id := next_id s + length rows\<rparr>"

text \<open>
  The \<open>catch\<close> block: \<open>error instanceof Error ? error.message : 'Unknown error'\<close>,
  answered with status 500.
\<close>

definition errorMessage :: "js_error \<Rightarrow> string" where
  "errorMessage err = (case err of ErrorInstance m \<Rightarrow> m | ErrorObject m \<Rightarrow> ''Unknown error'')"

definition catch_response :: "js_error \<Rightarrow> response" where
  "catch_response err = \<lparr>resp_status = 500, resp_body = FailureBody (errorMessage err)\<rparr>"

text \<open>
  Step 5 of the handler, the generation for a caller whose role has been verified: the
  response, the tables afterwards, and what was done. A failed insert stores nothing and
  is thrown to the \<open>catch\<close> block.
\<close>

definition generate :: "env \<Rightarrow> store \<Rightarrow> response \<times> store \<times> event list" where
  "generate e s =
     (let cands = alertsToCreate e s;
          ev1 = candidate_events e s;
          (ev2, s1) = cleanup_step e s;
          (ev3, existingSet) = existing_step e s1;
          new = newAlerts existingSet cands;
          evs = ev1 @ ev2
            @ [ConsoleLog (''Processing '' @ show_nat (length cands) @ '' potential alerts...'') []]
            @ ev3
            @ [ConsoleLog (''Creating '' @ show_nat (length new) @ '' new alerts...'') []];
          summary = LSummary (length cands) (length new) (length cands - length new);
          ok = \<lparr>resp_status = 200,
                resp_body = SuccessBody (length cands) (length new) (length cands - length new)\<rparr>
      in if length new > 0 then
           (case insertError e of
              Some err \<Rightarrow>
                (catch_response err, s1,
                 evs @ [Insert ''smart_alerts'',
                        ConsoleError ''Error inserting alerts:'' [LError err],
                        ConsoleError ''Error generating alerts:'' [LError err]])
            | None \<Rightarrow>
                (ok, insert_rows (now e) new s1,
                 evs @ [Insert ''smart_alerts'',
                        ConsoleLog ''Alert generation completed:'' [summary]]))
         else (ok, s1, evs @ [ConsoleLog ''Alert generation completed:'' [summary]]))"

subsection \<open>The handler\<close>

definition json_response :: "nat \<Rightarrow> string \<Rightarrow> response" where
  "json_response st msg = \<lparr>resp_status = st, resp_body = ErrorBody msg\<rparr>"

definition opt_logged :: "string option \<Rightarrow> logged" where
  "opt_logged x = (case x of None \<Rightarrow> LUndefined | Some t \<Rightarrow> LText t)"

definition missing_header :: "response \<times> event list" where
  "missing_header =
     (json_response 401 ''Unauthorized - missing authorization header'',
      [ConsoleLog ''Starting alert generation...'' [],
       ConsoleLog ''Missing authorization header'' []])"

definition invalid_token :: "js_error option \<Rightarrow> response \<times> event list" where
  "invalid_token authError =
     (json_response 401 ''Unauthorized - invalid token'',
      [ConsoleLog ''Starting alert generation...'' [], AuthGetUser,
       ConsoleLog ''Invalid token:'' [opt_logged (map_option error_message authError)]])"

definition authenticated_events :: "string \<Rightarrow> event list" where
  "authenticated_events uid =
     [ConsoleLog ''Starting alert generation...'' [], AuthGetUser,
      ConsoleLog ''User authenticated:'' [LText uid], Select ''user_roles'']"

text \<open>
  Steps 1 to 4 of the handler. Each check that fails answers at once (\<open>Inl\<close>, with the
  response); when all pass, the generation follows (\<open>Inr\<close>). \<open>!authHeader\<close> holds of a
  missing header and of an empty one; \<open>authError || !user\<close> of an error and of a missing
  user.
\<close>

definition authorize :: "env \<Rightarrow> request \<Rightarrow> (response \<times> event list) + event list" where
  "authorize e req =
     (case req_authorization req of
        None \<Rightarrow> Inl missing_header
      | Some authHeader \<Rightarrow>
          if authHeader = [] then Inl missing_header
          else
            (let (user, authError) = getUser e authHeader
             in case user of
                  None \<Rightarrow> Inl (invalid_token authError)
                | Some uid \<Rightarrow>
                    if authError \<noteq> None then Inl (invalid_token authError)
                    else
                      (let (roleData, roleError) = role_single e uid
                       in case roleError of
                            Some err \<Rightarrow>
                              Inl (json_response 403 ''Forbidden - unable to verify role'',
                                   authenticated_events uid
                                   @ [ConsoleLog ''Error fetching user role:''
                                        [LText (error_message err)]])
                          | None \<Rightarrow>
                              (case roleData of
                                 None \<Rightarrow>
                                   Inl (json_response 403
                                          ''Forbidden - admin or manager role required'',
                                        authenticated_events uid
                                        @ [ConsoleLog ''User does not have required role:''
                                             [LUndefined]])
                               | Some role \<Rightarrow>
                                   if role \<notin> set [''admin'', ''manager''] then
                                     Inl (json_response 403
                                            ''Forbidden - admin or manager role required'',
                                          authenticated_events uid
                                          @ [ConsoleLog ''User does not have required role:''
                                               [LText role]])
                                   else
                                     Inr (authenticated_events uid
                                          @ [ConsoleLog ''User role verified:''
                                               [LText role]])))))"

text \<open>
  \<open>Deno.serve(async (req) => ...)\<close>: the answer to a preflight request, else the checks
  and, when they pass, the generation.
\<close>

definition serve :: "env \<Rightarrow> request \<Rightarrow> store \<Rightarrow> response \<times> store \<times> event list" where
  "serve e req s =
     (if req_method req = ''OPTIONS'' then (\<lparr>resp_status = 200, resp_body = NullBody\<rparr>, s, [])
      else case authorize e req of
             Inl (r, evs) \<Rightarrow> (r, s, evs)
           | Inr evs \<Rightarrow> (let (r, s', evg) = generate e s in (r, s', evs @ evg)))"

subsection \<open>Notions used by the properties\<close>

text \<open>
  A call on one of the tables of the alert domain (every table but \<open>user_roles\<close>).
\<close>

fun data_access :: "event \<Rightarrow> bool" where
  "data_access (Select t) = (t \<noteq> ''user_roles'')"
| "data_access (Delete t) = True"
| "data_access (Insert t) = True"
| "data_access ev = False"

text \<open>The alerts that survive deduplication in a run, the \<open>newAlerts\<close> of the source.\<close>

definition surviving :: "env \<Rightarrow> store \<Rightarrow> alert_data list" where
  "surviving e s =
     newAlerts (snd (existing_step e (snd (cleanup_step e s)))) (alertsToCreate e s)"

text \<open>
  The invariant of the alert table: at most one unread alert for a type and a related
  identifier. Unread is what the deduplication read selects, \<open>is_read = false\<close>.
\<close>

definition unread_pairs :: "store \<Rightarrow> (string \<times> string option) list" where
  "unread_pairs s = map (\<lambda>a. (sa_type a, sa_related_id a)) (filter unread (smart_alerts s))"

definition at_most_one_unread :: "store \<Rightarrow> bool" where
  "at_most_one_unread s = distinct (unread_pairs s)"

text \<open>The candidates of a given type for a given related identifier.\<close>

definition candidates_for :: "string \<Rightarrow> string \<Rightarrow> alert_data list \<Rightarrow> alert_data list" where
  "candidates_for ty rid alerts =
     filter (\<lambda>a. ad_type a = ty \<and> ad_related_id a = Some rid) alerts"

text \<open>The reading that the first-wins reduction keeps for a KPI: the first one in the list.\<close>

definition kept_reading :: "string \<Rightarrow> kpi_value list \<Rightarrow> kpi_value option" where
  "kept_reading k kpiValues = find (\<lambda>v. kv_kpi_id v = k) kpiValues"

definition success_body :: "response \<Rightarrow> bool" where
  "success_body r = (case resp_body r of SuccessBody t n d \<Rightarrow> resp_status r = 200 | _ \<Rightarrow> False)"

definition newAlertsCreated :: "response \<Rightarrow> nat option" where
  "newAlertsCreated r = (case resp_body r of SuccessBody t n d \<Rightarrow> Some n | _ \<Rightarrow> None)"

text \<open>The domain of an alert type: KPI, overdue action, urgent action, problem.\<close>

definition domain_of :: "string \<Rightarrow> nat" where
  "domain_of ty =
     (if ty \<in> {''kpi_critical'', ''kpi_warning'', ''kpi_trend''} then 1
      else if ty = ''action_overdue'' then 2
      else if ty = ''action_urgent'' then 3
      else if ty \<in> {''problem_unresolved'', ''problem_critical''} then 4
      else 0)"

subsection \<open>Sample data\<close>

text \<open>
  The rows, the clock and the services at which the properties below are instantiated.
  \<open>noon\<close> is 2024-03-10T12:00:00Z.
\<close>

definition noon :: int where
  "noon = 1710072000000"

definition critical_problem :: "int \<Rightarrow> problem" where
  "critical_problem created =
     \<lparr>pb_id = ''p1'', pb_title = ''Fuite hydraulique'', pb_severity = ''critical'',
      pb_status = ''open'', pb_category_id = None, pb_created_at = created\<rparr>"

definition scrap_rate :: kpi where
  "scrap_rate = \<lparr>kpi_id = ''k1'', kpi_name = ''Scrap Rate'', kpi_category_id = Some ''quality''\<rparr>"

definition scrap_newest :: kpi_value where
  "scrap_newest =
     \<lparr>kv_id = ''v2'', kv_kpi_id = ''k1'', kv_value = ''4.2'', kv_status = ''orange'',
      kv_trend = ''down'', kv_recorded_at = 1710068400000, kv_kpi = Some scrap_rate\<rparr>"

definition scrap_older :: kpi_value where
  "scrap_older =
     \<lparr>kv_id = ''v1'', kv_kpi_id = ''k1'', kv_value = ''6.1'', kv_status = ''red'',
      kv_trend = ''up'', kv_recorded_at = 1709982000000, kv_kpi = Some scrap_rate\<rparr>"

definition orphan_reading :: kpi_value where
  "orphan_reading =
     \<lparr>kv_id = ''v3'', kv_kpi_id = ''k9'', kv_value = ''7'', kv_status = ''red'',
      kv_trend = ''up'', kv_recorded_at = 1710068400000, kv_kpi = None\<rparr>"

definition action_yesterday :: action where
  "action_yesterday =
     \<lparr>act_id = ''a1'', act_title = ''Changer le filtre'', act_due_date = ''2024-03-09'',
      act_priority = ''medium'', act_status = ''todo'', act_category_id = None\<rparr>"

definition action_today_urgent :: action where
  "action_today_urgent =
     \<lparr>act_id = ''a2'', act_title = ''Audit 5S'', act_due_date = ''2024-03-10'',
      act_priority = ''urgent'', act_status = ''in_progress'', act_category_id = None\<rparr>"

definition action_today_done :: action where
  "action_today_done =
     \<lparr>act_id = ''a3'', act_title = ''Former operateur'', act_due_date = ''2024-03-10'',
      act_priority = ''high'', act_status = ''completed'', act_category_id = None\<rparr>"

definition read_alert :: "string \<Rightarrow> int \<Rightarrow> smart_alert" where
  "read_alert i created =
     \<lparr>sa_id = i, sa_title = Some ''KPI critique: OEE'', sa_type = ''kpi_critical'',
      sa_message = ''rouge'', sa_severity = ''critical'', sa_category_id = None,
      sa_is_read = Some True, sa_created_at = created, sa_related_id = Some ''k7'',
      sa_related_type = Some ''kpi''\<rparr>"

definition sample_store :: store where
  "sample_store =
     \<lparr>kpi_values = [scrap_newest, scrap_older],
      actions = [action_yesterday, action_today_urgent, action_today_done],
      problems = [critical_problem (noon - 4 * 86400000)],
      smart_alerts = [read_alert ''r8'' (noon - 8 * 86400000),
                      read_alert ''r6'' (noon - 6 * 86400000)],
      next_id = 100\<rparr>"

definition sample_env :: env where
  "sample_env =
     \<lparr>now = noon, today = ''2024-03-10'',
      getUser = (\<lambda>h. if h = ''Bearer manager'' then (Some ''u1'', None)
                      else if h = ''Bearer operator'' then (Some ''u2'', None)
                      else if h = ''Bearer unknown'' then (Some ''u3'', None)
                      else (None, Some (ErrorObject ''invalid JWT''))),
      role_single = (\<lambda>u. if u = ''u1'' then (Some ''manager'', None)
                          else if u = ''u2'' then (Some ''operator'', None)
                          else (None, Some (ErrorObject ''no rows returned''))),
      kpiError = None, actionsError = None, urgentError = None, problemsError = None,
      deleteError = None, existingError = None, insertError = None\<rparr>"

definition post :: "string option \<Rightarrow> request" where
  "post h = \<lparr>req_method = ''POST'', req_authorization = h\<rparr>"

definition db_down :: js_error where
  "db_down = ErrorObject ''connection refused''"

text \<open>The tables after a run on the sample data in which every call succeeds.\<close>

definition after_first_run :: store where
  "after_first_run = fst (snd (generate sample_env sample_store))"

text \<open>
  A store with one critical, open problem, created one millisecond less than 4 days
  before noon, and nothing else.
\<close>

definition aging_problem :: problem where
  "aging_problem = critical_problem (noon - (4 * 86400000 - 1))"

definition aging_store :: store where
  "aging_store =
     \<lparr>kpi_values = [], actions = [], problems = [aging_problem],
      smart_alerts = [], next_id = 1\<rparr>"

section \<open>Properties of the dispatcher\<close>

text \<open>
  C1. The claim: the notify predicate suppresses \<open>kpi_warning\<close> (and \<open>kpi_trend\<close>,
  \<open>action_urgent\<close>, \<open>problem_unresolved\<close>) when the governing setting is false. The source
  tests three types only, \<open>kpi_critical\<close>, \<open>action_overdue\<close> and \<open>problem_critical\<close>:
  for a session of role manager whose \<open>kpi_alerts\<close> is false, the predicate is true on a
  \<open>kpi_warning\<close> insert event and the handler shows the toast.
\<close>

theorem shouldNotify_kpi_warning_not_suppressed:
  "shouldNotify (default_settings\<lparr>kpi_alerts := False\<rparr>) kpi_warning_event = True
   \<and> fst (on_insert (default_settings\<lparr>kpi_alerts := False\<rparr>) (Some ''manager'')
        kpi_warning_event) = Some (make_toast kpi_warning_event)"
  by (simp add: shouldNotify_def on_insert_def canSeeAlert_def default_settings_def
      kpi_warning_event_def)

text \<open>
  C9. A session whose role is admin is shown no toast, whatever the alert and the settings;
  the visibility predicate is true of every other role (and of a session with no role).
\<close>

theorem admin_never_notified:
  "fst (on_insert settings (Some ''admin'') newAlert) = None
   \<and> canSeeAlert role = (role \<noteq> Some ''admin'')"
  by (simp add: on_insert_def canSeeAlert_def)

section \<open>Properties of the generator\<close>

lemma generate_response:
  "fst (generate e s) =
     (if surviving e s = [] then
        \<lparr>resp_status = 200,
         resp_body = SuccessBody (length (alertsToCreate e s)) 0 (length (alertsToCreate e s))\<rparr>
      else case insertError e of
             Some err \<Rightarrow> catch_response err
           | None \<Rightarrow>
               \<lparr>resp_status = 200,
                resp_body = SuccessBody (length (alertsToCreate e s)) (length (surviving e s))
                  (length (alertsToCreate e s) - length (surviving e s))\<rparr>)"
  by (simp add: generate_def surviving_def Let_def split: prod.splits option.splits)

lemma generate_store:
  "fst (snd (generate e s)) =
     (if surviving e s \<noteq> [] \<and> insertError e = None
      then insert_rows (now e) (surviving e s) (snd (cleanup_step e s))
      else snd (cleanup_step e s))"
  by (simp add: generate_def surviving_def Let_def split: prod.splits option.splits)

lemma generate_events:
  "snd (snd (generate e s)) =
     candidate_events e s @ fst (cleanup_step e s)
     @ [ConsoleLog (''Processing '' @ show_nat (length (alertsToCreate e s))
          @ '' potential alerts...'') []]
     @ fst (existing_step e (snd (cleanup_step e s)))
     @ [ConsoleLog (''Creating '' @ show_nat (length (surviving e s)) @ '' new alerts...'') []]
     @ (if surviving e s = [] then []
        else Insert ''smart_alerts''
          # (case insertError e of
               Some err \<Rightarrow> [ConsoleError ''Error inserting alerts:'' [LError err]]
             | None \<Rightarrow> []))
     @ [case (if surviving e s = [] then None else insertError e) of
          Some err \<Rightarrow> ConsoleError ''Error generating alerts:'' [LError err]
        | None \<Rightarrow> ConsoleLog ''Alert generation completed:''
            [LSummary (length (alertsToCreate e s)) (length (surviving e s))
               (length (alertsToCreate e s) - length (surviving e s))]]"
  by (simp add: generate_def surviving_def Let_def split: prod.splits option.splits)


lemma problems_pass_single:
  "pb_severity p = ''critical'' \<or> pb_severity p = ''high'' \<Longrightarrow> pb_status p \<noteq> ''resolved''
   \<Longrightarrow> problems_pass t [p] = [problem_alert t p]"
  by (simp add: problems_pass_def problems_query_def)

lemma problem_alert_type:
  "ad_type (problem_alert t p) =
     (if daysSinceCreation t p > 3 then ''problem_unresolved'' else ''problem_critical'')"
  by (simp add: problem_alert_def isOld_def Let_def)

lemma int_less_div_iff:
  assumes "0 < (c::int)"
  shows "(k < x div c) = ((k + 1) * c \<le> x)"
proof -
  have "(x + (- k) * c) div c = - k + x div c"
    using assms by (intro div_mult_self1) simp
  then have "(k < x div c) = (0 < (x - k * c) div c)"
    by simp
  also have "\<dots> = (c \<le> x - k * c)"
    by (rule pos_imp_zdiv_pos_iff [OF assms])
  also have "\<dots> = ((k + 1) * c \<le> x)"
    by (simp add: algebra_simps)
  finally show ?thesis .
qed

lemma days_gt_3: "(daysSinceCreation t p > 3) = (t - pb_created_at p \<ge> 4 * 86400000)"
  unfolding daysSinceCreation_def ms_per_day_def
  by (simp add: int_less_div_iff)

text \<open>
  C2 (amended). For an unresolved problem of severity critical or high, the generator
  pushes one alert; its age is the elapsed time divided by one day, rounded down, and
  the alert is \<open>problem_unresolved\<close> when that age exceeds 3, else
  \<open>problem_critical\<close>. So it is \<open>problem_unresolved\<close> exactly when at least 4 whole
  days have elapsed: a problem created 3 days 0 hours before is \<open>problem_critical\<close>,
  one created 3 days 1 hour before is \<open>problem_critical\<close> too (its age is 3), and one
  created 4 days before is \<open>problem_unresolved\<close>.
\<close>

theorem problem_age_classification:
  assumes "pb_severity p = ''critical'' \<or> pb_severity p = ''high''"
    and "pb_status p \<noteq> ''resolved''"
  shows "problems_pass t [p] = [problem_alert t p]
    \<and> daysSinceCreation t p = (t - pb_created_at p) div 86400000
    \<and> ad_type (problem_alert t p) =
        (if daysSinceCreation t p > 3 then ''problem_unresolved'' else ''problem_critical'')
    \<and> (ad_type (problem_alert t p) = ''problem_unresolved'')
        = (t - pb_created_at p \<ge> 4 * 86400000)
    \<and> ad_type (problem_alert t (p\<lparr>pb_created_at := t - 3 * 86400000\<rparr>))
        = ''problem_critical''
    \<and> ad_type (problem_alert t (p\<lparr>pb_created_at := t - (3 * 86400000 + 3600000)\<rparr>))
        = ''problem_critical''
    \<and> ad_type (problem_alert t (p\<lparr>pb_created_at := t - 4 * 86400000\<rparr>))
        = ''problem_unresolved''"
proof -
  have a: "problems_pass t [p] = [problem_alert t p]"
    using assms by (rule problems_pass_single)
  have b: "daysSinceCreation t p = (t - pb_created_at p) div 86400000"
    by (simp add: daysSinceCreation_def ms_per_day_def)
  have c: "(ad_type (problem_alert t q) = ''problem_unresolved'')
        = (t - pb_created_at q \<ge> 4 * 86400000)" for q
    by (simp add: problem_alert_type days_gt_3)
  have d: "(ad_type (problem_alert t q) = ''problem_critical'')
        = (\<not> t - pb_created_at q \<ge> 4 * 86400000)" for q
    by (simp add: problem_alert_type days_gt_3)
  have e1: "ad_type (problem_alert t (p\<lparr>pb_created_at := t - 3 * 86400000\<rparr>))
        = ''problem_critical''"
    by (simp add: d)
  have e2: "ad_type (problem_alert t (p\<lparr>pb_created_at := t - (3 * 86400000 + 3600000)\<rparr>))
        = ''problem_critical''"
    by (simp add: d)
  have e3: "ad_type (problem_alert t (p\<lparr>pb_created_at := t - 4 * 86400000\<rparr>))
        = ''problem_unresolved''"
    by (simp add: c)
  from a b problem_alert_type [of t p] c [of p] e1 e2 e3 show ?thesis
    by (intro conjI)
qed

lemma filter_related_none:
  assumes "idf a \<notin> idf ` set xs" and "\<And>x. rid (f x) = Some (idf x)"
  shows "filter (\<lambda>c. rid c = Some (idf a)) (map f (filter P xs)) = []"
  using assms(1) by (induction xs) (auto simp: assms(2))

lemma filter_related_map_filter:
  assumes "distinct (map idf rows)" and "a \<in> set rows"
    and "\<And>x. rid (f x) = Some (idf x)"
  shows "filter (\<lambda>c. rid c = Some (idf a)) (map f (filter P rows)) = (if P a then [f a] else [])"
  using assms(1,2)
proof (induction rows)
  case Nil
  then show ?case by simp
next
  case (Cons x xs)
  show ?case
  proof (cases "x = a")
    case True
    with Cons.prems have "idf a \<notin> idf ` set xs" by simp
    then have "filter (\<lambda>c. rid c = Some (idf a)) (map f (filter P xs)) = []"
      by (rule filter_related_none) (rule assms(3))
    with True show ?thesis by (simp add: assms(3))
  next
    case False
    with Cons.prems have "a \<in> set xs" and "idf x \<noteq> idf a" and "distinct (map idf xs)"
      by auto
    with Cons.IH show ?thesis by (simp add: assms(3))
  qed
qed

lemma overdue_alert_related: "ad_related_id (overdue_alert x) = Some (act_id x)"
  by (simp add: overdue_alert_def Let_def)

lemma urgent_alert_related: "ad_related_id (urgent_alert x) = Some (act_id x)"
  by (simp add: urgent_alert_def)

lemma overdue_for_action:
  "distinct (map act_id rows) \<Longrightarrow> a \<in> set rows \<Longrightarrow>
   filter (\<lambda>c. ad_related_id c = Some (act_id a)) (overdue_pass day rows) =
     (if act_due_date a < day \<and> act_status a \<noteq> ''completed'' then [overdue_alert a] else [])"
  unfolding overdue_pass_def overdue_query_def
  by (rule filter_related_map_filter) (simp_all add: overdue_alert_related)

lemma urgent_for_action:
  "distinct (map act_id rows) \<Longrightarrow> a \<in> set rows \<Longrightarrow>
   filter (\<lambda>c. ad_related_id c = Some (act_id a)) (urgent_pass day rows) =
     (if act_due_date a = day \<and> (act_priority a = ''urgent'' \<or> act_priority a = ''high'')
         \<and> act_status a \<noteq> ''completed''
      then [urgent_alert a] else [])"
  unfolding urgent_pass_def urgent_query_def
  by (rule filter_related_map_filter) (simp_all add: urgent_alert_related)

lemma overdue_pass_rows:
  "overdue_pass day rows = concat (map (\<lambda>x. overdue_pass day [x]) rows)"
  by (induction rows) (simp_all add: overdue_pass_def overdue_query_def)

lemma urgent_pass_rows:
  "urgent_pass day rows = concat (map (\<lambda>x. urgent_pass day [x]) rows)"
  by (induction rows) (simp_all add: urgent_pass_def urgent_query_def)

lemma overdue_pass_row:
  "overdue_pass day [a] =
     (if act_due_date a < day \<and> act_status a \<noteq> ''completed'' then [overdue_alert a] else [])"
  by (simp add: overdue_pass_def overdue_query_def)

lemma urgent_pass_row:
  "urgent_pass day [a] =
     (if act_due_date a = day \<and> (act_priority a = ''urgent'' \<or> act_priority a = ''high'')
         \<and> act_status a \<noteq> ''completed''
      then [urgent_alert a] else [])"
  by (simp add: urgent_pass_def urgent_query_def)

text \<open>
  C5. An action due before today and not completed yields exactly one candidate, from
  the overdue pass, of type \<open>action_overdue\<close>, critical when its priority is urgent or
  high and high otherwise; an action due today, of priority urgent or high and not
  completed, yields exactly one candidate, from the urgent pass, of type
  \<open>action_urgent\<close> and severity high; an action due today and completed yields none
  from either pass; and no action yields candidates from both passes. What an action
  yields is what the pass pushes for its row: each pass over a table is the
  concatenation of what its rows yield, and in a table with distinct identifiers the
  candidates related to an action are the ones it yields.
\<close>

theorem action_candidates:
  "(act_due_date a < day \<and> act_status a \<noteq> ''completed'' \<longrightarrow>
      overdue_pass day [a] = [overdue_alert a] \<and> urgent_pass day [a] = []
      \<and> ad_type (overdue_alert a) = ''action_overdue''
      \<and> ad_related_id (overdue_alert a) = Some (act_id a)
      \<and> ad_severity (overdue_alert a) =
          (if act_priority a = ''urgent'' \<or> act_priority a = ''high'' then ''critical''
           else ''high''))
   \<and> (act_due_date a = day \<and> (act_priority a = ''urgent'' \<or> act_priority a = ''high'')
        \<and> act_status a \<noteq> ''completed'' \<longrightarrow>
      urgent_pass day [a] = [urgent_alert a] \<and> overdue_pass day [a] = []
      \<and> ad_type (urgent_alert a) = ''action_urgent''
      \<and> ad_related_id (urgent_alert a) = Some (act_id a)
      \<and> ad_severity (urgent_alert a) = ''high'')
   \<and> (act_due_date a = day \<and> act_status a = ''completed'' \<longrightarrow>
      overdue_pass day [a] = [] \<and> urgent_pass day [a] = [])
   \<and> (overdue_pass day [a] = [] \<or> urgent_pass day [a] = [])
   \<and> overdue_pass day rows = concat (map (\<lambda>x. overdue_pass day [x]) rows)
   \<and> urgent_pass day rows = concat (map (\<lambda>x. urgent_pass day [x]) rows)
   \<and> (distinct (map act_id rows) \<and> a \<in> set rows \<longrightarrow>
      filter (\<lambda>c. ad_related_id c = Some (act_id a))
        (overdue_pass day rows @ urgent_pass day rows)
      = overdue_pass day [a] @ urgent_pass day [a])"
proof -
  have rows: "distinct (map act_id rows) \<and> a \<in> set rows \<longrightarrow>
      filter (\<lambda>c. ad_related_id c = Some (act_id a))
        (overdue_pass day rows @ urgent_pass day rows)
      = overdue_pass day [a] @ urgent_pass day [a]"
    by (simp add: overdue_for_action urgent_for_action overdue_pass_row urgent_pass_row)
  have one: "overdue_pass day [a] = [] \<or> urgent_pass day [a] = []"
    by (auto simp: overdue_pass_row urgent_pass_row)
  have ov: "act_due_date a < day \<and> act_status a \<noteq> ''completed'' \<longrightarrow>
      overdue_pass day [a] = [overdue_alert a] \<and> urgent_pass day [a] = []
      \<and> ad_type (overdue_alert a) = ''action_overdue''
      \<and> ad_related_id (overdue_alert a) = Some (act_id a)
      \<and> ad_severity (overdue_alert a) =
          (if act_priority a = ''urgent'' \<or> act_priority a = ''high'' then ''critical''
           else ''high'')"
    by (auto simp: overdue_pass_row urgent_pass_row overdue_alert_def Let_def)
  have ur: "act_due_date a = day \<and> (act_priority a = ''urgent'' \<or> act_priority a = ''high'')
        \<and> act_status a \<noteq> ''completed'' \<longrightarrow>
      urgent_pass day [a] = [urgent_alert a] \<and> overdue_pass day [a] = []
      \<and> ad_type (urgent_alert a) = ''action_urgent''
      \<and> ad_related_id (urgent_alert a) = Some (act_id a)
      \<and> ad_severity (urgent_alert a) = ''high''"
    by (auto simp: overdue_pass_row urgent_pass_row urgent_alert_def)
  have dn: "act_due_date a = day \<and> act_status a = ''completed'' \<longrightarrow>
      overdue_pass day [a] = [] \<and> urgent_pass day [a] = []"
    by (auto simp: overdue_pass_row urgent_pass_row)
  from ov ur dn one overdue_pass_rows [of day rows] urgent_pass_rows [of day rows] rows
  show ?thesis by (intro conjI)
qed

lemma alertsToCreate_eq:
  "alertsToCreate e s =
     (if kpiError e = None then kpi_pass (kpi_values s) else [])
     @ (if actionsError e = None then overdue_pass (today e) (actions s) else [])
     @ (if urgentError e = None then urgent_pass (today e) (actions s) else [])
     @ (if problemsError e = None then problems_pass (now e) (problems s) else [])"
  by (simp add: alertsToCreate_def kpi_step_def overdue_step_def urgent_step_def
      problems_step_def split: option.splits)

lemma cleanup_store:
  "snd (cleanup_step e s) =
     (if deleteError e = None
      then s\<lparr>smart_alerts := filter (\<lambda>a. \<not> old_read (now e) a) (smart_alerts s)\<rparr>
      else s)"
  by (simp add: cleanup_step_def split: option.splits)

lemma cleanup_events:
  "fst (cleanup_step e s) =
     [ConsoleLog ''Cleaning up old alerts...'' [], Delete ''smart_alerts'']
     @ (case deleteError e of None \<Rightarrow> []
        | Some err \<Rightarrow> [ConsoleError ''Error deleting old alerts:'' [LError err]])"
  by (simp add: cleanup_step_def split: option.splits)

lemma cleanup_unread:
  "filter unread (smart_alerts (snd (cleanup_step e s))) = filter unread (smart_alerts s)"
proof -
  have "filter unread (filter (\<lambda>a. \<not> old_read (now e) a) (smart_alerts s))
      = filter unread (smart_alerts s)"
    unfolding filter_filter
    by (rule filter_cong) (auto simp: unread_def old_read_def)
  then show ?thesis by (simp add: cleanup_store)
qed

lemma cleanup_tables:
  "kpi_values (snd (cleanup_step e s)) = kpi_values s"
  "actions (snd (cleanup_step e s)) = actions s"
  "problems (snd (cleanup_step e s)) = problems s"
  "next_id (snd (cleanup_step e s)) = next_id s"
  by (simp_all add: cleanup_store)

lemma existing_keys:
  "snd (existing_step e s) =
     (if existingError e = None then map row_key (filter unread (smart_alerts s)) else [])"
  by (simp add: existing_step_def split: option.splits)

lemma existing_events:
  "fst (existing_step e s) =
     Select ''smart_alerts''
     # (case existingError e of None \<Rightarrow> []
        | Some err \<Rightarrow> [ConsoleError ''Error fetching existing alerts:'' [LError err]])"
  by (simp add: existing_step_def split: option.splits)

lemma surviving_eq:
  "surviving e s =
     filter (\<lambda>c. existingError e \<noteq> None
                \<or> alert_key c \<notin> row_key ` set (filter unread (smart_alerts s)))
       (alertsToCreate e s)"
  by (auto simp: surviving_def newAlerts_def existing_keys cleanup_unread intro: filter_cong)

lemma candidate_events_no_alert_select:
  "Select ''smart_alerts'' \<notin> set (candidate_events e s)"
  by (simp add: candidate_events_def kpi_step_def overdue_step_def urgent_step_def
      problems_step_def split: option.splits)

lemma new_rows_unread:
  "filter unread (map2 (new_row t) ns rows) = map2 (new_row t) ns rows"
  by (auto simp: filter_id_conv unread_def new_row_def in_set_zip)

lemma new_rows_not_old_read: "r \<in> set (map2 (new_row t) ns rows) \<Longrightarrow> \<not> old_read t' r"
  by (auto simp: old_read_def new_row_def in_set_zip)

lemma new_rows_pairs:
  "length ns = length rows \<Longrightarrow>
   map (\<lambda>a. (sa_type a, sa_related_id a)) (map2 (new_row t) ns rows)
     = map (\<lambda>a. (ad_type a, ad_related_id a)) rows"
  by (induction ns rows rule: list_induct2) (simp_all add: new_row_def)

lemma final_alerts:
  "\<exists>rows. smart_alerts (fst (snd (generate e s)))
            = smart_alerts (snd (cleanup_step e s)) @ map2 (new_row (now e)) [next_id s ..< next_id s + length rows] rows
          \<and> rows = (if insertError e = None then surviving e s else [])"
  by (simp add: generate_store insert_rows_def cleanup_tables)

text \<open>
  C6. When the delete succeeds, the alert rows after a run are the rows before it that
  are not both read and created more than 7 days before the invocation, followed by the
  (unread) rows the run inserts: a read alert created 8 days before is gone, one created
  6 days before is kept. The delete comes before the read of the unread alerts. When the
  delete fails, the error is written to the console, the response is the one the run
  gives when the delete succeeds, and no row is removed.
\<close>

theorem retention_sweep:
  "(deleteError e = None \<longrightarrow>
      (\<exists>rows. smart_alerts (fst (snd (generate e s)))
                = filter (\<lambda>a. \<not> (sa_is_read a = Some True
                                   \<and> sa_created_at a < now e - 7 * 86400000)) (smart_alerts s)
                  @ rows
              \<and> filter unread rows = rows)
      \<and> (\<forall>a. a \<in> set (smart_alerts s) \<and> sa_is_read a = Some True
              \<and> sa_created_at a = now e - 8 * 86400000
            \<longrightarrow> a \<notin> set (smart_alerts (fst (snd (generate e s)))))
      \<and> (\<forall>a. a \<in> set (smart_alerts s) \<and> sa_is_read a = Some True
              \<and> sa_created_at a = now e - 6 * 86400000
            \<longrightarrow> a \<in> set (smart_alerts (fst (snd (generate e s))))))
   \<and> (\<exists>pre post. snd (snd (generate e s)) = pre @ Delete ''smart_alerts'' # post
          \<and> Select ''smart_alerts'' \<notin> set pre \<and> Select ''smart_alerts'' \<in> set post)
   \<and> (\<forall>err. deleteError e = Some err \<longrightarrow>
          ConsoleError ''Error deleting old alerts:'' [LError err] \<in> set (snd (snd (generate e s)))
          \<and> fst (generate e s) = fst (generate (e\<lparr>deleteError := None\<rparr>) s)
          \<and> set (smart_alerts s) \<subseteq> set (smart_alerts (fst (snd (generate e s)))))"
proof (intro conjI impI allI)
  obtain rows where rows:
    "smart_alerts (fst (snd (generate e s)))
       = smart_alerts (snd (cleanup_step e s))
         @ map2 (new_row (now e)) [next_id s ..< next_id s + length rows] rows"
    using final_alerts [of e s] by blast
  let ?new = "map2 (new_row (now e)) [next_id s ..< next_id s + length rows] rows"
  {
    assume d: "deleteError e = None"
    have kept: "smart_alerts (snd (cleanup_step e s))
        = filter (\<lambda>a. \<not> (sa_is_read a = Some True
                          \<and> sa_created_at a < now e - 7 * 86400000)) (smart_alerts s)"
      using d by (simp add: cleanup_store old_read_def sevenDaysAgo_def)
    show "\<exists>rows. smart_alerts (fst (snd (generate e s)))
                = filter (\<lambda>a. \<not> (sa_is_read a = Some True
                                   \<and> sa_created_at a < now e - 7 * 86400000)) (smart_alerts s)
                  @ rows
              \<and> filter unread rows = rows"
      using rows kept new_rows_unread [of "now e"] by metis
    {
      fix a
      assume a: "a \<in> set (smart_alerts s) \<and> sa_is_read a = Some True
              \<and> sa_created_at a = now e - 8 * 86400000"
      then have "old_read (now e) a" by (simp add: old_read_def sevenDaysAgo_def)
      then have "a \<notin> set ?new" using new_rows_not_old_read by blast
      moreover have "a \<notin> set (smart_alerts (snd (cleanup_step e s)))"
        using a by (simp add: kept)
      ultimately show "a \<notin> set (smart_alerts (fst (snd (generate e s))))"
        by (simp add: rows)
    }
    {
      fix a
      assume a: "a \<in> set (smart_alerts s) \<and> sa_is_read a = Some True
              \<and> sa_created_at a = now e - 6 * 86400000"
      then have "a \<in> set (smart_alerts (snd (cleanup_step e s)))"
        by (simp add: kept)
      then show "a \<in> set (smart_alerts (fst (snd (generate e s))))"
        by (simp add: rows)
    }
  }
  show "\<exists>pre post. snd (snd (generate e s)) = pre @ Delete ''smart_alerts'' # post
          \<and> Select ''smart_alerts'' \<notin> set pre \<and> Select ''smart_alerts'' \<in> set post"
  proof (intro exI conjI)
    show "snd (snd (generate e s))
        = (candidate_events e s @ [ConsoleLog ''Cleaning up old alerts...'' []])
          @ Delete ''smart_alerts'' # tl (tl (drop (length (candidate_events e s)) (snd (snd (generate e s)))))"
      by (simp add: generate_events cleanup_events)
    show "Select ''smart_alerts'' \<notin> set (candidate_events e s @ [ConsoleLog ''Cleaning up old alerts...'' []])"
      by (simp add: candidate_events_no_alert_select)
    show "Select ''smart_alerts'' \<in> set (tl (tl (drop (length (candidate_events e s)) (snd (snd (generate e s))))))"
      by (simp add: generate_events cleanup_events existing_events)
  qed
  {
    fix err
    assume d: "deleteError e = Some err"
    show "ConsoleError ''Error deleting old alerts:'' [LError err] \<in> set (snd (snd (generate e s)))"
      using d by (simp add: generate_events cleanup_events)
    have "alertsToCreate (e\<lparr>deleteError := None\<rparr>) s = alertsToCreate e s"
      by (simp add: alertsToCreate_eq)
    moreover from this have "surviving (e\<lparr>deleteError := None\<rparr>) s = surviving e s"
      by (simp add: surviving_eq)
    ultimately show "fst (generate e s) = fst (generate (e\<lparr>deleteError := None\<rparr>) s)"
      by (simp add: generate_response split: option.splits)
    show "set (smart_alerts s) \<subseteq> set (smart_alerts (fst (snd (generate e s))))"
      using d by (simp add: rows cleanup_store)
  }
qed

lemma serve_authorized:
  assumes "req_method req \<noteq> ''OPTIONS''" and "authorize e req = Inr evs"
  shows "serve e req s
       = (fst (generate e s), fst (snd (generate e s)), evs @ snd (snd (generate e s)))"
  using assms by (simp add: serve_def split: prod.splits)

lemma candidate_events_errors:
  "(kpiError e = Some err \<longrightarrow>
      ConsoleError ''Error fetching KPI values:'' [LError err] \<in> set (candidate_events e s))
   \<and> (actionsError e = Some err \<longrightarrow>
      ConsoleError ''Error fetching overdue actions:'' [LError err] \<in> set (candidate_events e s))
   \<and> (urgentError e = Some err \<longrightarrow>
      ConsoleError ''Error fetching urgent actions:'' [LError err] \<in> set (candidate_events e s))
   \<and> (problemsError e = Some err \<longrightarrow>
      ConsoleError ''Error fetching problems:'' [LError err] \<in> set (candidate_events e s))"
  by (simp add: candidate_events_def kpi_step_def overdue_step_def urgent_step_def
      problems_step_def split: option.splits)

lemma candidate_events_in_generate:
  "ev \<in> set (candidate_events e s) \<Longrightarrow> ev \<in> set (snd (snd (generate e s)))"
  by (simp add: generate_events)

text \<open>
  C7. For an invocation whose caller is authorized: the candidates are those of the
  passes whose read succeeded, a failed read contributing none and leaving the other
  passes as they are, and each failed read is written to the console; the run answers
  with its summary unless the insert is attempted and fails; a failed insert is answered
  with status 500 and \<open>{success: false, error: message}\<close>, and the rows removed by the
  cleanup stay removed.
\<close>

theorem failure_semantics:
  assumes "req_method req \<noteq> ''OPTIONS''" and "authorize e req = Inr evs"
  shows
    "alertsToCreate e s =
       (if kpiError e = None then kpi_pass (kpi_values s) else [])
       @ (if actionsError e = None then overdue_pass (today e) (actions s) else [])
       @ (if urgentError e = None then urgent_pass (today e) (actions s) else [])
       @ (if problemsError e = None then problems_pass (now e) (problems s) else [])
     \<and> (\<forall>err. kpiError e = Some err \<longrightarrow>
          ConsoleError ''Error fetching KPI values:'' [LError err]
            \<in> set (snd (snd (serve e req s))))
     \<and> (\<forall>err. actionsError e = Some err \<longrightarrow>
          ConsoleError ''Error fetching overdue actions:'' [LError err]
            \<in> set (snd (snd (serve e req s))))
     \<and> (\<forall>err. urgentError e = Some err \<longrightarrow>
          ConsoleError ''Error fetching urgent actions:'' [LError err]
            \<in> set (snd (snd (serve e req s))))
     \<and> (\<forall>err. problemsError e = Some err \<longrightarrow>
          ConsoleError ''Error fetching problems:'' [LError err]
            \<in> set (snd (snd (serve e req s))))
     \<and> (surviving e s = [] \<or> insertError e = None \<longrightarrow>
          fst (serve e req s) =
            \<lparr>resp_status = 200,
             resp_body = SuccessBody (length (alertsToCreate e s)) (length (surviving e s))
               (length (alertsToCreate e s) - length (surviving e s))\<rparr>)
     \<and> (\<forall>err. surviving e s \<noteq> [] \<and> insertError e = Some err \<longrightarrow>
          fst (serve e req s) =
            \<lparr>resp_status = 500, resp_body = FailureBody (errorMessage err)\<rparr>
          \<and> smart_alerts (fst (snd (serve e req s))) =
              (if deleteError e = None
               then filter (\<lambda>a. \<not> old_read (now e) a) (smart_alerts s)
               else smart_alerts s))"
proof -
  note sv = serve_authorized [OF assms, of s]
  have ev: "\<And>x. x \<in> set (candidate_events e s) \<Longrightarrow> x \<in> set (snd (snd (serve e req s)))"
    by (simp add: sv candidate_events_in_generate)
  have r1: "surviving e s = [] \<or> insertError e = None \<longrightarrow>
          fst (serve e req s) =
            \<lparr>resp_status = 200,
             resp_body = SuccessBody (length (alertsToCreate e s)) (length (surviving e s))
               (length (alertsToCreate e s) - length (surviving e s))\<rparr>"
    by (auto simp: sv generate_response)
  have r2: "\<forall>err. surviving e s \<noteq> [] \<and> insertError e = Some err \<longrightarrow>
          fst (serve e req s) =
            \<lparr>resp_status = 500, resp_body = FailureBody (errorMessage err)\<rparr>
          \<and> smart_alerts (fst (snd (serve e req s))) =
              (if deleteError e = None
               then filter (\<lambda>a. \<not> old_read (now e) a) (smart_alerts s)
               else smart_alerts s)"
    by (simp add: sv generate_response generate_store catch_response_def cleanup_store)
  show ?thesis
    using candidate_events_errors [of e _ s] ev r1 r2 alertsToCreate_eq [of e s]
    by blast
qed

text \<open>
  C10. When the read of the unread alerts fails, the error is written to the console and
  every candidate survives deduplication; when the insert succeeds all of them are stored
  (\<open>newAlertsCreated\<close> is the number of candidates, none is skipped), and a candidate
  whose type and related identifier an unread alert already has leaves two unread alerts
  for that pair: the invariant does not hold after the run.
\<close>

theorem dedup_read_failure:
  assumes "existingError e = Some err"
  shows
    "surviving e s = alertsToCreate e s
     \<and> ConsoleError ''Error fetching existing alerts:'' [LError err]
         \<in> set (snd (snd (generate e s)))
     \<and> (insertError e = None \<longrightarrow>
          fst (generate e s) =
            \<lparr>resp_status = 200,
             resp_body = SuccessBody (length (alertsToCreate e s))
               (length (alertsToCreate e s)) 0\<rparr>
          \<and> (\<forall>c. c \<in> set (alertsToCreate e s)
                \<and> (ad_type c, ad_related_id c) \<in> set (unread_pairs s)
              \<longrightarrow> \<not> at_most_one_unread (fst (snd (generate e s)))))"
proof -
  have sv: "surviving e s = alertsToCreate e s"
    using assms by (simp add: surviving_eq)
  have lg: "ConsoleError ''Error fetching existing alerts:'' [LError err]
         \<in> set (snd (snd (generate e s)))"
    using assms by (simp add: generate_events existing_events)
  {
    assume ins: "insertError e = None"
    have resp: "fst (generate e s) =
            \<lparr>resp_status = 200,
             resp_body = SuccessBody (length (alertsToCreate e s))
               (length (alertsToCreate e s)) 0\<rparr>"
      using ins by (simp add: generate_response sv)
    {
      fix c
      assume c: "c \<in> set (alertsToCreate e s)
                \<and> (ad_type c, ad_related_id c) \<in> set (unread_pairs s)"
      let ?cs = "alertsToCreate e s"
      let ?new = "map2 (new_row (now e)) [next_id s ..< next_id s + length ?cs] ?cs"
      from c have ne: "?cs \<noteq> []" by auto
      have fin: "smart_alerts (fst (snd (generate e s)))
          = smart_alerts (snd (cleanup_step e s)) @ ?new"
        using ins ne by (simp add: generate_store sv insert_rows_def cleanup_tables)
      have newp: "map (\<lambda>a. (sa_type a, sa_related_id a)) ?new
          = map (\<lambda>a. (ad_type a, ad_related_id a)) ?cs"
        by (rule new_rows_pairs) simp
      have up: "unread_pairs (fst (snd (generate e s)))
          = unread_pairs s @ map (\<lambda>a. (ad_type a, ad_related_id a)) ?cs"
        unfolding unread_pairs_def fin
        by (simp only: filter_append map_append cleanup_unread new_rows_unread newp)
      have "(ad_type c, ad_related_id c) \<in> set (map (\<lambda>a. (ad_type a, ad_related_id a)) ?cs)"
        using c by force
      with c have "\<not> distinct (unread_pairs (fst (snd (generate e s))))"
        unfolding up by auto
      then have "\<not> at_most_one_unread (fst (snd (generate e s)))"
        by (simp add: at_most_one_unread_def)
    }
    note this resp
  }
  with sv lg show ?thesis by blast
qed

lemma authorize_no_access:
  "authorize e req = Inl (r, evs) \<Longrightarrow> filter data_access evs = []"
  by (auto simp: authorize_def missing_header_def invalid_token_def authenticated_events_def
      Let_def split: option.splits if_splits prod.splits)

lemma serve_rejected:
  assumes "req_method req \<noteq> ''OPTIONS''" and "authorize e req = Inl (r, evs)"
  shows "serve e req s = (r, s, evs)"
  using assms by (simp add: serve_def)

lemma generate_status:
  "resp_status (fst (generate e s)) = 200 \<or> resp_status (fst (generate e s)) = 500"
  by (simp add: generate_response catch_response_def split: option.splits)

text \<open>
  C8. For a request that is not a preflight: no Authorization header is answered 401
  \<open>Unauthorized - missing authorization header\<close>; a credential for which \<open>getUser\<close>
  reports an error or no user, 401 \<open>Unauthorized - invalid token\<close>; a failed role
  lookup, 403 \<open>Forbidden - unable to verify role\<close>; a role that is neither admin nor
  manager, 403 \<open>Forbidden - admin or manager role required\<close>. Whenever the answer is
  401 or 403, the tables are unchanged and no call on a table of the alert domain was
  made.
\<close>

theorem authorization_fail_fast:
  assumes "req_method req \<noteq> ''OPTIONS''"
  shows
    "(req_authorization req = None \<longrightarrow>
        fst (serve e req s) =
          \<lparr>resp_status = 401,
           resp_body = ErrorBody ''Unauthorized - missing authorization header''\<rparr>)
     \<and> (\<forall>h. req_authorization req = Some h \<and> h \<noteq> []
            \<and> (snd (getUser e h) \<noteq> None \<or> fst (getUser e h) = None) \<longrightarrow>
        fst (serve e req s) =
          \<lparr>resp_status = 401, resp_body = ErrorBody ''Unauthorized - invalid token''\<rparr>)
     \<and> (\<forall>h uid err. req_authorization req = Some h \<and> h \<noteq> []
            \<and> getUser e h = (Some uid, None) \<and> snd (role_single e uid) = Some err \<longrightarrow>
        fst (serve e req s) =
          \<lparr>resp_status = 403, resp_body = ErrorBody ''Forbidden - unable to verify role''\<rparr>)
     \<and> (\<forall>h uid. req_authorization req = Some h \<and> h \<noteq> []
            \<and> getUser e h = (Some uid, None) \<and> snd (role_single e uid) = None
            \<and> fst (role_single e uid) \<noteq> Some ''admin''
            \<and> fst (role_single e uid) \<noteq> Some ''manager'' \<longrightarrow>
        fst (serve e req s) =
          \<lparr>resp_status = 403,
           resp_body = ErrorBody ''Forbidden - admin or manager role required''\<rparr>)
     \<and> (resp_status (fst (serve e req s)) = 401 \<or> resp_status (fst (serve e req s)) = 403 \<longrightarrow>
        fst (snd (serve e req s)) = s
        \<and> filter data_access (snd (snd (serve e req s))) = [])"
proof (intro conjI impI allI)
  show "fst (serve e req s) =
          \<lparr>resp_status = 401,
           resp_body = ErrorBody ''Unauthorized - missing authorization header''\<rparr>"
    if "req_authorization req = None"
    using that assms
    by (simp add: serve_def authorize_def missing_header_def json_response_def)
  show "fst (serve e req s) =
          \<lparr>resp_status = 401, resp_body = ErrorBody ''Unauthorized - invalid token''\<rparr>"
    if "req_authorization req = Some h \<and> h \<noteq> []
            \<and> (snd (getUser e h) \<noteq> None \<or> fst (getUser e h) = None)" for h
    using that assms
    by (auto simp: serve_def authorize_def invalid_token_def json_response_def
        split: prod.splits option.splits)
  show "fst (serve e req s) =
          \<lparr>resp_status = 403, resp_body = ErrorBody ''Forbidden - unable to verify role''\<rparr>"
    if "req_authorization req = Some h \<and> h \<noteq> []
            \<and> getUser e h = (Some uid, None) \<and> snd (role_single e uid) = Some err"
    for h uid err
    using that assms
    by (auto simp: serve_def authorize_def json_response_def
        split: prod.splits option.splits)
  show "fst (serve e req s) =
          \<lparr>resp_status = 403,
           resp_body = ErrorBody ''Forbidden - admin or manager role required''\<rparr>"
    if "req_authorization req = Some h \<and> h \<noteq> []
            \<and> getUser e h = (Some uid, None) \<and> snd (role_single e uid) = None
            \<and> fst (role_single e uid) \<noteq> Some ''admin''
            \<and> fst (role_single e uid) \<noteq> Some ''manager''"
    for h uid
    using that assms
    by (auto simp: serve_def authorize_def json_response_def
        split: prod.splits option.splits)
  assume st: "resp_status (fst (serve e req s)) = 401 \<or> resp_status (fst (serve e req s)) = 403"
  have "\<exists>r evs. authorize e req = Inl (r, evs)"
  proof (cases "authorize e req")
    case (Inl a)
    then show ?thesis by (cases a) simp
  next
    case (Inr evs)
    from serve_authorized [OF assms Inr, of s] generate_status [of e s] st
    show ?thesis by auto
  qed
  then obtain r evs where a: "authorize e req = Inl (r, evs)" by blast
  show "fst (snd (serve e req s)) = s"
    by (simp add: serve_rejected [OF assms a])
  show "filter data_access (snd (snd (serve e req s))) = []"
    using authorize_no_access [OF a] by (simp add: serve_rejected [OF assms a])
qed

lemma group_latest_map_of:
  "map_of (group_latest m vs) k =
     (case map_of m k of Some v \<Rightarrow> Some v | None \<Rightarrow> find (\<lambda>v. kv_kpi_id v = k) vs)"
proof (induction vs arbitrary: m)
  case Nil
  then show ?case by (simp split: option.splits)
next
  case (Cons v rest)
  show ?case
  proof (cases "kv_kpi_id v \<in> set (map fst m)")
    case True
    then have "map_of m (kv_kpi_id v) \<noteq> None"
      by (simp add: map_of_eq_None_iff)
    then show ?thesis
      using True Cons.IH [of m] by (auto split: option.splits)
  next
    case False
    then have "map_of m (kv_kpi_id v) = None"
      by (simp add: map_of_eq_None_iff)
    then show ?thesis
      using False Cons.IH [of "m @ [(kv_kpi_id v, v)]"]
      by (auto simp: map_add_def split: option.splits)
  qed
qed

lemma group_latest_distinct:
  "distinct (map fst m) \<Longrightarrow> distinct (map fst (group_latest m vs))"
  by (induction vs arbitrary: m) auto

lemma latestByKpi_map_of: "map_of (latestByKpi vs) k = kept_reading k vs"
  by (simp add: latestByKpi_def kept_reading_def group_latest_map_of)

lemma latestByKpi_distinct: "distinct (map fst (latestByKpi vs))"
  by (simp add: latestByKpi_def group_latest_distinct)

lemma kpi_alerts_of_related:
  "c \<in> set (kpi_alerts_of (k, v)) \<Longrightarrow> ad_related_id c = Some k"
  by (auto simp: kpi_alerts_of_def kpi_critical_alert_def kpi_warning_alert_def
      kpi_trend_alert_def split: option.splits if_splits)

lemma candidates_for_other_kpi:
  "k' \<noteq> k \<Longrightarrow> candidates_for ty k (kpi_alerts_of (k', v)) = []"
  by (auto simp: candidates_for_def filter_empty_conv dest: kpi_alerts_of_related)

lemma candidates_for_absent:
  "k \<notin> fst ` set entries \<Longrightarrow> candidates_for ty k (concat (map kpi_alerts_of entries)) = []"
proof (induction entries)
  case Nil
  then show ?case by (simp add: candidates_for_def)
next
  case (Cons x xs)
  obtain k' v where x: "x = (k', v)" by (cases x)
  with Cons.prems have "k' \<noteq> k" by auto
  then have "candidates_for ty k (kpi_alerts_of (k', v)) = []"
    by (rule candidates_for_other_kpi)
  moreover have "candidates_for ty k (concat (map kpi_alerts_of xs)) = []"
    using Cons by simp
  ultimately show ?case
    by (simp add: x candidates_for_def)
qed

lemma candidates_for_entries:
  "distinct (map fst entries) \<Longrightarrow>
   candidates_for ty k (concat (map kpi_alerts_of entries)) =
     (case map_of entries k of None \<Rightarrow> []
      | Some v \<Rightarrow> candidates_for ty k (kpi_alerts_of (k, v)))"
proof (induction entries)
  case Nil
  then show ?case by (simp add: candidates_for_def)
next
  case (Cons x xs)
  obtain k' v where x: "x = (k', v)" by (cases x)
  show ?case
  proof (cases "k' = k")
    case True
    with Cons.prems x have "k \<notin> fst ` set xs" by auto
    then have "candidates_for ty k (concat (map kpi_alerts_of xs)) = []"
      by (rule candidates_for_absent)
    with True x show ?thesis by (simp add: candidates_for_def)
  next
    case False
    then have "candidates_for ty k (kpi_alerts_of (k', v)) = []"
      by (rule candidates_for_other_kpi)
    with False x Cons show ?thesis by (simp add: candidates_for_def)
  qed
qed

lemma candidates_for_kpi_pass:
  "candidates_for ty k (kpi_pass vs) =
     (case kept_reading k vs of None \<Rightarrow> []
      | Some v \<Rightarrow> candidates_for ty k (kpi_alerts_of (k, v)))"
  by (simp add: kpi_pass_def candidates_for_entries latestByKpi_distinct latestByKpi_map_of)

lemma candidates_for_entry:
  "candidates_for ''kpi_critical'' k (kpi_alerts_of (k, v)) =
     (case kv_kpi v of None \<Rightarrow> []
      | Some kp \<Rightarrow> if kv_status v = ''red'' then [kpi_critical_alert k v kp] else [])"
  "candidates_for ''kpi_warning'' k (kpi_alerts_of (k, v)) =
     (case kv_kpi v of None \<Rightarrow> []
      | Some kp \<Rightarrow> if kv_status v = ''orange'' then [kpi_warning_alert k v kp] else [])"
  "candidates_for ''kpi_trend'' k (kpi_alerts_of (k, v)) =
     (case kv_kpi v of None \<Rightarrow> []
      | Some kp \<Rightarrow>
          if kv_trend v = ''down'' \<and> kv_status v \<noteq> ''green''
          then [kpi_trend_alert k v kp] else [])"
  by (simp_all add: candidates_for_def kpi_alerts_of_def kpi_critical_alert_def
      kpi_warning_alert_def kpi_trend_alert_def split: option.splits)

text \<open>
  C4 (amended). The map \<open>latestByKpi\<close> holds, for each KPI id, the first reading of the
  list with that id, and each id once. For a KPI id, the \<open>kpi_critical\<close> candidates are
  exactly one when the kept reading carries its embedded KPI row and has status red, and
  none otherwise, whatever the later (older) readings of the list are; likewise
  \<open>kpi_warning\<close> for status orange and \<open>kpi_trend\<close> for trend down with a status other
  than green. A kept reading whose embedded KPI row is null yields no candidate.
\<close>

theorem kpi_first_reading_wins:
  "map_of (latestByKpi vs) k = kept_reading k vs
   \<and> distinct (map fst (latestByKpi vs))
   \<and> candidates_for ''kpi_critical'' k (kpi_pass vs) =
       (case kept_reading k vs of None \<Rightarrow> []
        | Some v \<Rightarrow>
            (case kv_kpi v of None \<Rightarrow> []
             | Some kp \<Rightarrow>
                 if kv_status v = ''red'' then [kpi_critical_alert k v kp] else []))
   \<and> candidates_for ''kpi_warning'' k (kpi_pass vs) =
       (case kept_reading k vs of None \<Rightarrow> []
        | Some v \<Rightarrow>
            (case kv_kpi v of None \<Rightarrow> []
             | Some kp \<Rightarrow>
                 if kv_status v = ''orange'' then [kpi_warning_alert k v kp] else []))
   \<and> candidates_for ''kpi_trend'' k (kpi_pass vs) =
       (case kept_reading k vs of None \<Rightarrow> []
        | Some v \<Rightarrow>
            (case kv_kpi v of None \<Rightarrow> []
             | Some kp \<Rightarrow>
                 if kv_trend v = ''down'' \<and> kv_status v \<noteq> ''green''
                 then [kpi_trend_alert k v kp] else []))"
  by (simp add: latestByKpi_map_of latestByKpi_distinct candidates_for_kpi_pass
      candidates_for_entry split: option.splits)

lemma kpi_pass_related:
  "c \<in> set (kpi_pass vs) \<Longrightarrow> \<exists>r. ad_related_id c = Some r"
  by (auto simp: kpi_pass_def dest: kpi_alerts_of_related)

lemma candidate_related:
  "c \<in> set (alertsToCreate e s) \<Longrightarrow> \<exists>r. ad_related_id c = Some r"
  by (auto simp: alertsToCreate_eq overdue_pass_def urgent_pass_def problems_pass_def
      overdue_alert_related urgent_alert_related problem_alert_def Let_def
      dest: kpi_pass_related split: if_splits)

lemma row_key_new_row:
  "ad_related_id c = Some r \<Longrightarrow> row_key (new_row t n c) = alert_key c"
  by (simp add: row_key_def alert_key_def new_row_def)

lemma new_rows_keys:
  assumes "length ns = length rows" and "\<forall>c \<in> set rows. \<exists>r. ad_related_id c = Some r"
  shows "map row_key (map2 (new_row t) ns rows) = map alert_key rows"
  using assms
  by (induction ns rows rule: list_induct2) (auto simp: row_key_new_row)

lemma generate_tables:
  "kpi_values (fst (snd (generate e s))) = kpi_values s"
  "actions (fst (snd (generate e s))) = actions s"
  "problems (fst (snd (generate e s))) = problems s"
  by (simp_all add: generate_store insert_rows_def cleanup_tables)

lemma generate_candidates_again:
  "alertsToCreate e (fst (snd (generate e s))) = alertsToCreate e s"
  by (simp add: alertsToCreate_eq generate_tables)

lemma generate_unread:
  "filter unread (smart_alerts (fst (snd (generate e s)))) =
     filter unread (smart_alerts s)
     @ (if surviving e s \<noteq> [] \<and> insertError e = None
        then map2 (new_row (now e)) [next_id s ..< next_id s + length (surviving e s)]
               (surviving e s)
        else [])"
  by (simp add: generate_store insert_rows_def cleanup_tables cleanup_unread new_rows_unread)

lemma surviving_subset: "set (surviving e s) \<subseteq> set (alertsToCreate e s)"
  by (auto simp: surviving_eq)

lemma generate_success_cases:
  "success_body (fst (generate e s)) = (surviving e s = [] \<or> insertError e = None)"
  by (auto simp: generate_response success_body_def catch_response_def split: option.splits)

lemma stored_keys:
  assumes ok: "success_body (fst (generate e s))"
    and c: "c \<in> set (alertsToCreate e s)"
  shows "alert_key c \<in> row_key ` set (filter unread (smart_alerts (fst (snd (generate e s)))))"
proof -
  let ?s2 = "fst (snd (generate e s))"
  have keys2: "row_key ` set (filter unread (smart_alerts ?s2))
      = row_key ` set (filter unread (smart_alerts s)) \<union> alert_key ` set (surviving e s)"
  proof (cases "surviving e s = []")
    case True
    then show ?thesis by (simp add: generate_unread)
  next
    case False
    with ok have ins: "insertError e = None"
      by (simp add: generate_success_cases)
    have "\<forall>c \<in> set (surviving e s). \<exists>r. ad_related_id c = Some r"
      using surviving_subset candidate_related by blast
    then have "map row_key (map2 (new_row (now e))
          [next_id s ..< next_id s + length (surviving e s)] (surviving e s))
        = map alert_key (surviving e s)"
      by (intro new_rows_keys) simp_all
    then have "row_key ` set (map2 (new_row (now e))
          [next_id s ..< next_id s + length (surviving e s)] (surviving e s))
        = alert_key ` set (surviving e s)"
      by (metis set_map)
    with False ins show ?thesis
      by (simp add: generate_unread image_Un)
  qed
  show ?thesis
  proof (cases "alert_key c \<in> row_key ` set (filter unread (smart_alerts s))")
    case True
    then show ?thesis unfolding keys2 by blast
  next
    case False
    with c have "c \<in> set (surviving e s)"
      by (simp add: surviving_eq)
    then show ?thesis unfolding keys2 by blast
  qed
qed

lemma problem_alert_key:
  "alert_key (problem_alert t p) =
     (if isOld t p then ''problem_unresolved'' else ''problem_critical'') @ ''-'' @ pb_id p"
  by (simp add: alert_key_def problem_alert_def Let_def)

lemma problems_pass_keys:
  assumes "\<forall>p \<in> set (problems_query rows). isOld t' p = isOld t p"
  shows "map alert_key (problems_pass t' rows) = map alert_key (problems_pass t rows)"
  using assms by (simp add: problems_pass_def problem_alert_key)

lemma later_candidate_keys:
  assumes "kpiError e = None" and "actionsError e = None" and "urgentError e = None"
    and "problemsError e = None"
    and day: "today e' = today e"
    and age: "\<forall>p \<in> set (problems_query (problems s)). isOld (now e') p = isOld (now e) p"
  shows "alert_key ` set (alertsToCreate e' s) \<subseteq> alert_key ` set (alertsToCreate e s)"
proof -
  have "alert_key ` set (problems_pass (now e') (problems s))
      = alert_key ` set (problems_pass (now e) (problems s))"
    using problems_pass_keys [OF age] by (metis set_map)
  then show ?thesis
    using assms(1-4) by (auto simp: alertsToCreate_eq day image_Un split: if_splits)
qed

lemma later_run_no_survivor:
  assumes "kpiError e = None" and "actionsError e = None" and "urgentError e = None"
    and "problemsError e = None"
    and ex: "existingError e' = None"
    and ok: "success_body (fst (generate e s))"
    and day: "today e' = today e"
    and age: "\<forall>p \<in> set (problems_query (problems s)). isOld (now e') p = isOld (now e) p"
  shows "surviving e' (fst (snd (generate e s))) = []"
proof -
  let ?s2 = "fst (snd (generate e s))"
  have "alert_key c \<in> row_key ` set (filter unread (smart_alerts ?s2))"
    if "c \<in> set (alertsToCreate e' s)" for c
  proof -
    from that later_candidate_keys [OF assms(1-4) day age]
    obtain c0 where "c0 \<in> set (alertsToCreate e s)" "alert_key c = alert_key c0"
      by blast
    with stored_keys [OF ok] show ?thesis by metis
  qed
  moreover have "alertsToCreate e' ?s2 = alertsToCreate e' s"
    by (simp add: alertsToCreate_eq generate_tables)
  ultimately show ?thesis
    using ex by (simp add: surviving_eq [of e' ?s2] filter_empty_conv)
qed

lemma distinct_map_of_image:
  "distinct (map g (map f xs)) \<Longrightarrow> distinct (map f xs)"
  by (induction xs) auto

lemma kpi_entry_pairs_distinct:
  "distinct (map (\<lambda>c. (ad_type c, ad_related_id c)) (kpi_alerts_of x))"
  by (simp add: kpi_alerts_of_def kpi_critical_alert_def kpi_warning_alert_def
      kpi_trend_alert_def Let_def split: option.splits)

lemma kpi_entries_pairs_distinct:
  "distinct (map fst entries) \<Longrightarrow>
   distinct (map (\<lambda>c. (ad_type c, ad_related_id c)) (concat (map kpi_alerts_of entries)))"
proof (induction entries)
  case Nil
  then show ?case by simp
next
  case (Cons x xs)
  obtain k v where x: "x = (k, v)" by (cases x)
  have "ad_related_id c \<noteq> ad_related_id c'"
    if "c \<in> set (kpi_alerts_of (k, v))" and "c' \<in> set (concat (map kpi_alerts_of xs))"
    for c c'
  proof -
    from that(2) obtain k' v' where kv: "(k', v') \<in> set xs" "c' \<in> set (kpi_alerts_of (k', v'))"
      by auto
    with Cons.prems x have "k' \<noteq> k" by force
    with kv that(1) show ?thesis
      by (auto dest!: kpi_alerts_of_related)
  qed
  then have "(\<lambda>c. (ad_type c, ad_related_id c)) ` set (kpi_alerts_of (k, v))
      \<inter> (\<lambda>c. (ad_type c, ad_related_id c)) ` set (concat (map kpi_alerts_of xs)) = {}"
    by fastforce
  with Cons x show ?case
    by (simp add: kpi_entry_pairs_distinct)
qed

lemma kpi_pass_pairs_distinct:
  "distinct (map (\<lambda>c. (ad_type c, ad_related_id c)) (kpi_pass vs))"
  by (simp add: kpi_pass_def kpi_entries_pairs_distinct latestByKpi_distinct)

lemma overdue_pairs_distinct:
  assumes "distinct (map act_id rows)"
  shows "distinct (map (\<lambda>c. (ad_type c, ad_related_id c)) (overdue_pass d rows))"
proof -
  have "distinct (map (Some \<circ> act_id) (overdue_query d rows))"
    using assms by (simp add: overdue_query_def distinct_map_filter distinct_map inj_on_def
        flip: map_map)
  then have "distinct (map snd (map (\<lambda>c. (ad_type c, ad_related_id c)) (overdue_pass d rows)))"
    by (simp add: overdue_pass_def comp_def overdue_alert_related)
  then show ?thesis by (rule distinct_map_of_image)
qed

lemma urgent_pairs_distinct:
  assumes "distinct (map act_id rows)"
  shows "distinct (map (\<lambda>c. (ad_type c, ad_related_id c)) (urgent_pass d rows))"
proof -
  have "distinct (map (Some \<circ> act_id) (urgent_query d rows))"
    using assms by (simp add: urgent_query_def distinct_map_filter distinct_map inj_on_def
        flip: map_map)
  then have "distinct (map snd (map (\<lambda>c. (ad_type c, ad_related_id c)) (urgent_pass d rows)))"
    by (simp add: urgent_pass_def comp_def urgent_alert_related)
  then show ?thesis by (rule distinct_map_of_image)
qed

lemma problem_alert_related: "ad_related_id (problem_alert t p) = Some (pb_id p)"
  by (simp add: problem_alert_def Let_def)

lemma problems_pairs_distinct:
  assumes "distinct (map pb_id rows)"
  shows "distinct (map (\<lambda>c. (ad_type c, ad_related_id c)) (problems_pass t rows))"
proof -
  have "distinct (map (Some \<circ> pb_id) (problems_query rows))"
    using assms by (simp add: problems_query_def distinct_map_filter distinct_map inj_on_def
        flip: map_map)
  then have "distinct (map snd (map (\<lambda>c. (ad_type c, ad_related_id c)) (problems_pass t rows)))"
    by (simp add: problems_pass_def comp_def problem_alert_related)
  then show ?thesis by (rule distinct_map_of_image)
qed

lemma kpi_pass_types:
  "c \<in> set (kpi_pass vs) \<Longrightarrow> ad_type c \<in> {''kpi_critical'', ''kpi_warning'', ''kpi_trend''}"
proof -
  have "ad_type c \<in> {''kpi_critical'', ''kpi_warning'', ''kpi_trend''}"
    if "c \<in> set (kpi_alerts_of x)" for x
    using that
    by (cases "kv_kpi (snd x)")
      (auto simp: kpi_alerts_of_def Let_def kpi_critical_alert_def kpi_warning_alert_def
        kpi_trend_alert_def split: if_splits)
  then show "c \<in> set (kpi_pass vs) \<Longrightarrow> ?thesis"
    by (auto simp: kpi_pass_def)
qed

lemma overdue_pass_types: "c \<in> set (overdue_pass d rows) \<Longrightarrow> ad_type c = ''action_overdue''"
  by (auto simp: overdue_pass_def overdue_alert_def Let_def)

lemma urgent_pass_types: "c \<in> set (urgent_pass d rows) \<Longrightarrow> ad_type c = ''action_urgent''"
  by (auto simp: urgent_pass_def urgent_alert_def)

lemma problems_pass_types:
  "c \<in> set (problems_pass t ps) \<Longrightarrow>
   ad_type c \<in> {''problem_unresolved'', ''problem_critical''}"
proof -
  have "ad_type (problem_alert t p) \<in> {''problem_unresolved'', ''problem_critical''}" for p
    by (simp add: problem_alert_type)
  then show "c \<in> set (problems_pass t ps) \<Longrightarrow> ?thesis"
    by (auto simp: problems_pass_def)
qed

lemma pairs_disjoint_by_domain:
  assumes "\<And>c. c \<in> set xs \<Longrightarrow> domain_of (ad_type c) = m"
    and "\<And>c. c \<in> set ys \<Longrightarrow> domain_of (ad_type c) = n"
    and "m \<noteq> n"
  shows "(\<lambda>c. (ad_type c, ad_related_id c)) ` set xs
       \<inter> (\<lambda>c. (ad_type c, ad_related_id c)) ` set ys = {}"
proof -
  have "ad_type c \<noteq> ad_type c'" if "c \<in> set xs" and "c' \<in> set ys" for c c'
    using assms(1) [OF that(1)] assms(2) [OF that(2)] assms(3) by auto
  then show ?thesis by fastforce
qed


lemma distinct_pairs_append:
  "distinct (map p xs) \<Longrightarrow> distinct (map p ys) \<Longrightarrow> p ` set xs \<inter> p ` set ys = {}
   \<Longrightarrow> distinct (map p (xs @ ys))"
  by simp

lemma candidates_pairs_distinct:
  assumes "distinct (map act_id (actions s))" and "distinct (map pb_id (problems s))"
  shows "distinct (map (\<lambda>c. (ad_type c, ad_related_id c)) (alertsToCreate e s))"
proof -
  let ?A = "if kpiError e = None then kpi_pass (kpi_values s) else []"
  let ?B = "if actionsError e = None then overdue_pass (today e) (actions s) else []"
  let ?C = "if urgentError e = None then urgent_pass (today e) (actions s) else []"
  let ?D = "if problemsError e = None then problems_pass (now e) (problems s) else []"
  let ?p = "\<lambda>c. (ad_type c, ad_related_id c)"
  have tA: "domain_of (ad_type c) = 1" if "c \<in> set ?A" for c
  proof -
    from that have "ad_type c \<in> {''kpi_critical'', ''kpi_warning'', ''kpi_trend''}"
      by (cases "kpiError e = None") (auto dest: kpi_pass_types)
    then show ?thesis by (simp add: domain_of_def)
  qed
  have tB: "domain_of (ad_type c) = 2" if "c \<in> set ?B" for c
  proof -
    from that have "ad_type c = ''action_overdue''"
      by (cases "actionsError e = None") (simp_all add: overdue_pass_types)
    then show ?thesis by (simp add: domain_of_def)
  qed
  have tC: "domain_of (ad_type c) = 3" if "c \<in> set ?C" for c
  proof -
    from that have "ad_type c = ''action_urgent''"
      by (cases "urgentError e = None") (simp_all add: urgent_pass_types)
    then show ?thesis by (simp add: domain_of_def)
  qed
  have tD: "domain_of (ad_type c) = 4" if "c \<in> set ?D" for c
  proof -
    from that have "ad_type c \<in> {''problem_unresolved'', ''problem_critical''}"
      by (cases "problemsError e = None") (auto dest: problems_pass_types)
    then show ?thesis by (auto simp: domain_of_def)
  qed
  have dA: "distinct (map ?p ?A)" by (simp add: kpi_pass_pairs_distinct)
  have dB: "distinct (map ?p ?B)" by (simp add: overdue_pairs_distinct assms)
  have dC: "distinct (map ?p ?C)" by (simp add: urgent_pairs_distinct assms)
  have dD: "distinct (map ?p ?D)" by (simp add: problems_pairs_distinct assms)
  have CD: "?p ` set ?C \<inter> ?p ` set ?D = {}"
    by (rule pairs_disjoint_by_domain [OF tC tD]) simp_all
  have BC: "?p ` set ?B \<inter> ?p ` set ?C = {}"
    by (rule pairs_disjoint_by_domain [OF tB tC]) simp_all
  have BD: "?p ` set ?B \<inter> ?p ` set ?D = {}"
    by (rule pairs_disjoint_by_domain [OF tB tD]) simp_all
  have AB: "?p ` set ?A \<inter> ?p ` set ?B = {}"
    by (rule pairs_disjoint_by_domain [OF tA tB]) simp_all
  have AC: "?p ` set ?A \<inter> ?p ` set ?C = {}"
    by (rule pairs_disjoint_by_domain [OF tA tC]) simp_all
  have AD: "?p ` set ?A \<inter> ?p ` set ?D = {}"
    by (rule pairs_disjoint_by_domain [OF tA tD]) simp_all
  have dCD: "distinct (map ?p (?C @ ?D))"
    using dC dD CD by (rule distinct_pairs_append)
  have "?p ` set ?B \<inter> ?p ` set (?C @ ?D) = {}"
    using BC BD by (simp only: set_append image_Un Int_Un_distrib Un_empty)
  with dB dCD have dBCD: "distinct (map ?p (?B @ ?C @ ?D))"
    by (rule distinct_pairs_append)
  have "?p ` set ?A \<inter> ?p ` set (?B @ ?C @ ?D) = {}"
    using AB AC AD by (simp only: set_append image_Un Int_Un_distrib Un_empty)
  with dA dBCD have "distinct (map ?p (?A @ ?B @ ?C @ ?D))"
    by (rule distinct_pairs_append)
  then show ?thesis by (simp only: alertsToCreate_eq)
qed

lemma unread_key_of_pair:
  assumes "(ad_type c, ad_related_id c) \<in> set (unread_pairs s)"
    and "ad_related_id c = Some r"
  shows "alert_key c \<in> row_key ` set (filter unread (smart_alerts s))"
proof -
  from assms(1) obtain a where a: "a \<in> set (filter unread (smart_alerts s))"
      "sa_type a = ad_type c" "sa_related_id a = ad_related_id c"
    by (auto simp: unread_pairs_def)
  then have "row_key a = alert_key c"
    using assms(2) by (simp add: row_key_def alert_key_def)
  with a(1) show ?thesis by (metis imageI)
qed

lemma generate_unread_pairs:
  "unread_pairs (fst (snd (generate e s))) =
     unread_pairs s
     @ (if surviving e s \<noteq> [] \<and> insertError e = None
        then map (\<lambda>c. (ad_type c, ad_related_id c)) (surviving e s) else [])"
proof -
  have "map (\<lambda>a. (sa_type a, sa_related_id a))
          (map2 (new_row (now e)) [next_id s ..< next_id s + length (surviving e s)]
             (surviving e s))
      = map (\<lambda>c. (ad_type c, ad_related_id c)) (surviving e s)"
    by (rule new_rows_pairs) simp
  then show ?thesis
    unfolding unread_pairs_def generate_unread by (simp del: map_map)
qed

lemma invariant_preserved:
  assumes ex: "existingError e = None"
    and ids: "distinct (map act_id (actions s))" "distinct (map pb_id (problems s))"
    and inv: "at_most_one_unread s"
  shows "at_most_one_unread (fst (snd (generate e s)))"
proof -
  let ?p = "\<lambda>c. (ad_type c, ad_related_id c)"
  have d1: "distinct (unread_pairs s)"
    using inv by (simp add: at_most_one_unread_def)
  have "distinct (map ?p (alertsToCreate e s))"
    using ids by (rule candidates_pairs_distinct)
  then have d2: "distinct (map ?p (surviving e s))"
    unfolding surviving_eq by (rule distinct_map_filter)
  have dj: "set (unread_pairs s) \<inter> set (map ?p (surviving e s)) = {}"
  proof (rule ccontr)
    assume "set (unread_pairs s) \<inter> set (map ?p (surviving e s)) \<noteq> {}"
    then obtain c where c: "c \<in> set (surviving e s)" "?p c \<in> set (unread_pairs s)"
      by auto
    from c(1) have "c \<in> set (alertsToCreate e s)"
      using surviving_subset by blast
    then obtain r where "ad_related_id c = Some r"
      using candidate_related by blast
    with c(2) have "alert_key c \<in> row_key ` set (filter unread (smart_alerts s))"
      by (rule unread_key_of_pair)
    with c(1) ex show False
      by (simp add: surviving_eq)
  qed
  from d1 d2 dj have "distinct (unread_pairs s @ map ?p (surviving e s))"
    by simp
  then have d3: "distinct (unread_pairs s @ map ?p (surviving e s))" .
  show ?thesis
  proof (cases "surviving e s \<noteq> [] \<and> insertError e = None")
    case True
    then have "unread_pairs (fst (snd (generate e s)))
        = unread_pairs s @ map ?p (surviving e s)"
      by (simp add: generate_unread_pairs)
    with d3 show ?thesis by (simp only: at_most_one_unread_def)
  next
    case False
    then have "unread_pairs (fst (snd (generate e s))) = unread_pairs s"
      by (auto simp: generate_unread_pairs)
    with d1 show ?thesis by (simp only: at_most_one_unread_def)
  qed
qed

lemma surviving_not_existing:
  "existingError e = None \<Longrightarrow>
   filter (\<lambda>c. alert_key c \<in> set (map row_key (filter unread (smart_alerts s))))
     (surviving e s) = []"
  by (simp add: surviving_eq filter_empty_conv)

lemma failed_insert_repeats:
  assumes "insertError e = Some err" and "surviving e s \<noteq> []"
  shows "fst (generate e s) = catch_response err"
    and "fst (generate e (fst (snd (generate e s)))) = catch_response err"
proof -
  let ?s1 = "snd (cleanup_step e s)"
  show "fst (generate e s) = catch_response err"
    using assms by (simp add: generate_response)
  have st: "fst (snd (generate e s)) = ?s1"
    using assms by (simp add: generate_store)
  have "alertsToCreate e ?s1 = alertsToCreate e s"
    by (simp add: alertsToCreate_eq cleanup_tables)
  then have "surviving e ?s1 = surviving e s"
    by (simp add: surviving_eq cleanup_unread)
  with assms show "fst (generate e (fst (snd (generate e s)))) = catch_response err"
    by (simp add: st generate_response [of e ?s1])
qed

text \<open>
  C3 (amended). Let a first run, all of whose reads succeed, be answered with its
  success summary (its insert, if attempted, did not fail), and let a second run follow
  on the tables the first one left, with its read of the unread alerts succeeding, on
  the same UTC date, and with every selected problem on the same side of the age
  threshold (more than 3 whole days, or not) at the clock of either run. The clock of
  the second run is its own. Then the second run is answered with
  \<open>newAlertsCreated = 0\<close>: no survivor of the first run has the key of an alert that
  was unread, and the second run finds the key of every candidate. When moreover the
  actions and the problems have distinct identifiers, the first run keeps the invariant
  that at most one unread alert exists for a type and a related identifier.
\<close>

theorem second_run_creates_nothing:
  assumes "kpiError e = None" and "actionsError e = None" and "urgentError e = None"
    and "problemsError e = None" and "existingError e = None"
    and "existingError e' = None"
    and "success_body (fst (generate e s))"
    and "today e' = today e"
    and "\<forall>p \<in> set (problems_query (problems s)). isOld (now e') p = isOld (now e) p"
  shows
    "fst (generate e' (fst (snd (generate e s)))) =
       \<lparr>resp_status = 200,
        resp_body = SuccessBody (length (alertsToCreate e' s)) 0 (length (alertsToCreate e' s))\<rparr>
     \<and> newAlertsCreated (fst (generate e' (fst (snd (generate e s))))) = Some 0
     \<and> filter (\<lambda>c. alert_key c \<in> set (map row_key (filter unread (smart_alerts s))))
         (surviving e s) = []
     \<and> (distinct (map act_id (actions s)) \<and> distinct (map pb_id (problems s))
          \<and> at_most_one_unread s
        \<longrightarrow> at_most_one_unread (fst (snd (generate e s))))"
proof -
  have none: "surviving e' (fst (snd (generate e s))) = []"
    using assms(1-4) assms(6-9) by (rule later_run_no_survivor)
  have same: "alertsToCreate e' (fst (snd (generate e s))) = alertsToCreate e' s"
    by (simp add: alertsToCreate_eq generate_tables)
  have r: "fst (generate e' (fst (snd (generate e s)))) =
       \<lparr>resp_status = 200,
        resp_body = SuccessBody (length (alertsToCreate e' s)) 0 (length (alertsToCreate e' s))\<rparr>"
    by (simp add: generate_response [of e' "fst (snd (generate e s))"] none same)
  then have "newAlertsCreated (fst (generate e' (fst (snd (generate e s))))) = Some 0"
    by (simp add: newAlertsCreated_def)
  with r surviving_not_existing [OF assms(5), of s] invariant_preserved [OF assms(5), of s]
  show ?thesis by blast
qed

section \<open>The properties on the sample data\<close>

lemma sample_unread: "filter unread (smart_alerts sample_store) = []"
  by (simp add: sample_store_def read_alert_def unread_def)

lemma sample_survivor:
  assumes "actionsError e = None" and "today e = ''2024-03-10''"
  shows "overdue_alert action_yesterday \<in> set (surviving e sample_store)"
proof -
  have "overdue_alert action_yesterday \<in> set (overdue_pass ''2024-03-10'' (actions sample_store))"
    by (simp add: overdue_pass_def overdue_query_def sample_store_def action_yesterday_def)
  then have "overdue_alert action_yesterday \<in> set (alertsToCreate e sample_store)"
    using assms by (simp add: alertsToCreate_eq)
  then show ?thesis
    by (simp add: surviving_eq sample_unread)
qed

lemma sample_invariant:
  "distinct (map act_id (actions sample_store))"
  "distinct (map pb_id (problems sample_store))"
  "at_most_one_unread sample_store"
  by (simp_all add: sample_store_def action_yesterday_def action_today_urgent_def
      action_today_done_def at_most_one_unread_def unread_pairs_def read_alert_def unread_def)

lemma sample_env_fields:
  "now sample_env = noon" "today sample_env = ''2024-03-10''"
  "kpiError sample_env = None" "actionsError sample_env = None"
  "urgentError sample_env = None" "problemsError sample_env = None"
  "deleteError sample_env = None" "existingError sample_env = None"
  "insertError sample_env = None"
  by (simp_all add: sample_env_def)

lemma manager_authorized:
  "authorize (e\<lparr>getUser := getUser sample_env, role_single := role_single sample_env\<rparr>)
     (post (Some ''Bearer manager''))
   = Inr (authenticated_events ''u1'' @ [ConsoleLog ''User role verified:'' [LText ''manager'']])"
  by (simp add: authorize_def post_def sample_env_def)

lemma first_run_stored:
  "(ad_type (overdue_alert action_yesterday), ad_related_id (overdue_alert action_yesterday))
     \<in> set (unread_pairs after_first_run)"
proof -
  have s: "overdue_alert action_yesterday \<in> set (surviving sample_env sample_store)"
    by (rule sample_survivor) (simp_all add: sample_env_fields)
  then have "surviving sample_env sample_store \<noteq> [] \<and> insertError sample_env = None"
    by (auto simp: sample_env_fields)
  then have "unread_pairs after_first_run
      = unread_pairs sample_store
        @ map (\<lambda>c. (ad_type c, ad_related_id c)) (surviving sample_env sample_store)"
    by (simp add: after_first_run_def generate_unread_pairs)
  with s show ?thesis by force
qed

lemma after_first_run_candidate:
  assumes "actionsError e = None" and "today e = ''2024-03-10''"
  shows "overdue_alert action_yesterday \<in> set (alertsToCreate e after_first_run)"
proof -
  have "overdue_alert action_yesterday \<in> set (overdue_pass ''2024-03-10'' (actions sample_store))"
    by (simp add: overdue_pass_def overdue_query_def sample_store_def action_yesterday_def)
  then show ?thesis
    using assms by (simp add: alertsToCreate_eq after_first_run_def generate_tables)
qed

lemma after_first_run_invariant: "at_most_one_unread after_first_run"
  unfolding after_first_run_def
  by (rule invariant_preserved) (simp_all add: sample_env_fields sample_invariant)

text \<open>
  The problem of the sample data, critical and open: created 3 days 1 hour before noon it
  is \<open>problem_critical\<close>, created 4 days before noon \<open>problem_unresolved\<close>.
\<close>

theorem problem_age_classification_witness:
  "(pb_severity (critical_problem 0) = ''critical'' \<or> pb_severity (critical_problem 0) = ''high'')
   \<and> pb_status (critical_problem 0) \<noteq> ''resolved''
   \<and> ad_type (problem_alert noon (critical_problem (noon - (3 * 86400000 + 3600000))))
       = ''problem_critical''
   \<and> ad_type (problem_alert noon (critical_problem (noon - 4 * 86400000)))
       = ''problem_unresolved''"
  using problem_age_classification [of "critical_problem 0" noon]
  by (simp add: critical_problem_def)

text \<open>
  A critical, open problem created 3 days 1 hour before the invocation has age 3 and its
  alert is not \<open>problem_unresolved\<close>.
\<close>

theorem problem_3d1h_counterexample:
  "problems_pass noon [critical_problem (noon - (3 * 86400000 + 3600000))]
     = [problem_alert noon (critical_problem (noon - (3 * 86400000 + 3600000)))]
   \<and> daysSinceCreation noon (critical_problem (noon - (3 * 86400000 + 3600000))) = 3
   \<and> ad_type (problem_alert noon (critical_problem (noon - (3 * 86400000 + 3600000))))
       \<noteq> ''problem_unresolved''"
  by (simp add: problems_pass_def problems_query_def critical_problem_def problem_alert_def
      isOld_def daysSinceCreation_def ms_per_day_def Let_def)

text \<open>
  Scrap Rate, newest reading orange and down, older reading red: a warning and a trend
  candidate from the newest reading and no critical one. With the two readings in the
  other order the red one is kept and the critical candidate is pushed.
\<close>

theorem kpi_first_reading_wins_witness:
  "kept_reading ''k1'' [scrap_newest, scrap_older] = Some scrap_newest
   \<and> candidates_for ''kpi_critical'' ''k1'' (kpi_pass [scrap_newest, scrap_older]) = []
   \<and> candidates_for ''kpi_warning'' ''k1'' (kpi_pass [scrap_newest, scrap_older])
       = [kpi_warning_alert ''k1'' scrap_newest scrap_rate]
   \<and> candidates_for ''kpi_trend'' ''k1'' (kpi_pass [scrap_newest, scrap_older])
       = [kpi_trend_alert ''k1'' scrap_newest scrap_rate]
   \<and> candidates_for ''kpi_critical'' ''k1'' (kpi_pass [scrap_older, scrap_newest])
       = [kpi_critical_alert ''k1'' scrap_older scrap_rate]"
  using kpi_first_reading_wins [of "[scrap_newest, scrap_older]" "''k1''"]
    kpi_first_reading_wins [of "[scrap_older, scrap_newest]" "''k1''"]
  by (simp add: kept_reading_def scrap_newest_def scrap_older_def)

text \<open>
  A single reading, red, whose embedded KPI row is null: it is the kept reading of its
  KPI id and there is no \<open>kpi_critical\<close> candidate.
\<close>

theorem kpi_without_row_counterexample:
  "kept_reading ''k9'' [orphan_reading] = Some orphan_reading
   \<and> kv_status orphan_reading = ''red''
   \<and> candidates_for ''kpi_critical'' ''k9'' (kpi_pass [orphan_reading]) = []"
  by (simp add: kept_reading_def orphan_reading_def candidates_for_def kpi_pass_def
      latestByKpi_def kpi_alerts_of_def)

text \<open>
  The three actions of the sample data on 2024-03-10: the one due the day before, to do,
  of priority medium, has one \<open>action_overdue\<close> candidate of severity high; the urgent
  one due today has one \<open>action_urgent\<close> candidate; the completed one due today has
  none.
\<close>

theorem action_candidates_witness:
  "act_due_date action_yesterday < ''2024-03-10''
   \<and> act_status action_yesterday \<noteq> ''completed''
   \<and> distinct (map act_id (actions sample_store))
   \<and> action_yesterday \<in> set (actions sample_store)
   \<and> filter (\<lambda>c. ad_related_id c = Some ''a1'')
        (overdue_pass ''2024-03-10'' (actions sample_store)
         @ urgent_pass ''2024-03-10'' (actions sample_store))
       = [overdue_alert action_yesterday]
   \<and> ad_severity (overdue_alert action_yesterday) = ''high''
   \<and> filter (\<lambda>c. ad_related_id c = Some ''a2'')
        (overdue_pass ''2024-03-10'' (actions sample_store)
         @ urgent_pass ''2024-03-10'' (actions sample_store))
       = [urgent_alert action_today_urgent]
   \<and> filter (\<lambda>c. ad_related_id c = Some ''a3'')
        (overdue_pass ''2024-03-10'' (actions sample_store)
         @ urgent_pass ''2024-03-10'' (actions sample_store))
       = []"
proof -
  have d: "distinct (map act_id (actions sample_store))"
    by (simp add: sample_store_def action_yesterday_def action_today_urgent_def
        action_today_done_def)
  have m: "action_yesterday \<in> set (actions sample_store)"
    "action_today_urgent \<in> set (actions sample_store)"
    "action_today_done \<in> set (actions sample_store)"
    by (simp_all add: sample_store_def)
  have i: "act_id action_yesterday = ''a1''" "act_id action_today_urgent = ''a2''"
    "act_id action_today_done = ''a3''"
    by (simp_all add: action_yesterday_def action_today_urgent_def action_today_done_def)
  have h1: "act_due_date action_yesterday < ''2024-03-10''
      \<and> act_status action_yesterday \<noteq> ''completed''"
    and p1: "\<not> (act_priority action_yesterday = ''urgent'' \<or> act_priority action_yesterday = ''high'')"
    by (simp_all add: action_yesterday_def)
  have h2: "act_due_date action_today_urgent = ''2024-03-10''
      \<and> (act_priority action_today_urgent = ''urgent'' \<or> act_priority action_today_urgent = ''high'')
      \<and> act_status action_today_urgent \<noteq> ''completed''"
    by (simp add: action_today_urgent_def)
  have h3: "act_due_date action_today_done = ''2024-03-10''
      \<and> act_status action_today_done = ''completed''"
    by (simp add: action_today_done_def)
  note t1 = action_candidates [of action_yesterday "''2024-03-10''" "actions sample_store"]
  note t2 = action_candidates [of action_today_urgent "''2024-03-10''" "actions sample_store"]
  note t3 = action_candidates [of action_today_done "''2024-03-10''" "actions sample_store"]
  let ?both = "overdue_pass ''2024-03-10'' (actions sample_store)
         @ urgent_pass ''2024-03-10'' (actions sample_store)"
  from t1 h1 have y1: "overdue_pass ''2024-03-10'' [action_yesterday] = [overdue_alert action_yesterday]"
    "urgent_pass ''2024-03-10'' [action_yesterday] = []"
    "ad_severity (overdue_alert action_yesterday) =
       (if act_priority action_yesterday = ''urgent'' \<or> act_priority action_yesterday = ''high''
        then ''critical'' else ''high'')"
    by blast+
  from t1 d m(1) have f1: "filter (\<lambda>c. ad_related_id c = Some (act_id action_yesterday)) ?both
      = overdue_pass ''2024-03-10'' [action_yesterday] @ urgent_pass ''2024-03-10'' [action_yesterday]"
    by blast
  from t2 h2 have y2: "urgent_pass ''2024-03-10'' [action_today_urgent] = [urgent_alert action_today_urgent]"
    "overdue_pass ''2024-03-10'' [action_today_urgent] = []"
    by blast+
  from t2 d m(2) have f2: "filter (\<lambda>c. ad_related_id c = Some (act_id action_today_urgent)) ?both
      = overdue_pass ''2024-03-10'' [action_today_urgent]
        @ urgent_pass ''2024-03-10'' [action_today_urgent]"
    by blast
  from t3 h3 have y3: "overdue_pass ''2024-03-10'' [action_today_done] = []"
    "urgent_pass ''2024-03-10'' [action_today_done] = []"
    by blast+
  from t3 d m(3) have f3: "filter (\<lambda>c. ad_related_id c = Some (act_id action_today_done)) ?both
      = overdue_pass ''2024-03-10'' [action_today_done]
        @ urgent_pass ''2024-03-10'' [action_today_done]"
    by blast
  have r1: "filter (\<lambda>c. ad_related_id c = Some ''a1'') ?both = [overdue_alert action_yesterday]"
    using f1 by (simp only: y1 i append_Nil2)
  have s1: "ad_severity (overdue_alert action_yesterday) = ''high''"
    using y1(3) p1 by simp
  have r2: "filter (\<lambda>c. ad_related_id c = Some ''a2'') ?both = [urgent_alert action_today_urgent]"
    using f2 by (simp only: y2 i append_Nil)
  have r3: "filter (\<lambda>c. ad_related_id c = Some ''a3'') ?both = []"
    using f3 by (simp only: y3 i append_Nil)
  from h1 d m(1) r1 s1 r2 r3 show ?thesis
    by (intro conjI) blast+
qed

text \<open>
  A run on the sample data: the read alert created 8 days before noon is removed, the
  one created 6 days before is kept; with a failing delete the error is on the console
  and the response is the same.
\<close>

theorem retention_sweep_witness:
  "deleteError sample_env = None
   \<and> read_alert ''r8'' (noon - 8 * 86400000)
       \<notin> set (smart_alerts (fst (snd (generate sample_env sample_store))))
   \<and> read_alert ''r6'' (noon - 6 * 86400000)
       \<in> set (smart_alerts (fst (snd (generate sample_env sample_store))))
   \<and> deleteError (sample_env\<lparr>deleteError := Some db_down\<rparr>) = Some db_down
   \<and> ConsoleError ''Error deleting old alerts:'' [LError db_down]
       \<in> set (snd (snd (generate (sample_env\<lparr>deleteError := Some db_down\<rparr>) sample_store)))
   \<and> fst (generate (sample_env\<lparr>deleteError := Some db_down\<rparr>) sample_store)
       = fst (generate sample_env sample_store)"
proof -
  let ?r8 = "read_alert ''r8'' (noon - 8 * 86400000)"
  let ?r6 = "read_alert ''r6'' (noon - 6 * 86400000)"
  let ?e = "sample_env\<lparr>deleteError := Some db_down\<rparr>"
  have d: "deleteError sample_env = None" by (simp add: sample_env_fields)
  have h8: "?r8 \<in> set (smart_alerts sample_store) \<and> sa_is_read ?r8 = Some True
      \<and> sa_created_at ?r8 = now sample_env - 8 * 86400000"
    by (simp add: sample_store_def read_alert_def sample_env_fields)
  have h6: "?r6 \<in> set (smart_alerts sample_store) \<and> sa_is_read ?r6 = Some True
      \<and> sa_created_at ?r6 = now sample_env - 6 * 86400000"
    by (simp add: sample_store_def read_alert_def sample_env_fields)
  have f: "deleteError ?e = Some db_down" by simp
  have restored: "?e\<lparr>deleteError := None\<rparr> = sample_env"
    by (simp add: sample_env_def)
  from retention_sweep [of sample_env sample_store] d h8 h6
  have a: "?r8 \<notin> set (smart_alerts (fst (snd (generate sample_env sample_store))))"
    and b: "?r6 \<in> set (smart_alerts (fst (snd (generate sample_env sample_store))))"
    by blast+
  from retention_sweep [of ?e sample_store] f
  have c: "ConsoleError ''Error deleting old alerts:'' [LError db_down]
       \<in> set (snd (snd (generate ?e sample_store)))"
    and c': "fst (generate ?e sample_store) = fst (generate (?e\<lparr>deleteError := None\<rparr>) sample_store)"
    by blast+
  from d a b f c c' show ?thesis by (simp only: restored) simp
qed

text \<open>
  A manager's invocation on the sample data with a failing read of the KPI readings:
  the error is on the console and the run goes on; with a failing insert as well it is
  answered 500 (the error is not an instance of \<open>Error\<close>, so the message is
  \<open>Unknown error\<close>) and the old read alert stays removed; with a working insert it is
  answered 200.
\<close>

theorem failure_semantics_witness:
  "req_method (post (Some ''Bearer manager'')) \<noteq> ''OPTIONS''
   \<and> kpiError (sample_env\<lparr>kpiError := Some db_down, insertError := Some db_down\<rparr>)
       = Some db_down
   \<and> surviving (sample_env\<lparr>kpiError := Some db_down, insertError := Some db_down\<rparr>)
       sample_store \<noteq> []
   \<and> ConsoleError ''Error fetching KPI values:'' [LError db_down]
       \<in> set (snd (snd (serve (sample_env\<lparr>kpiError := Some db_down, insertError := Some db_down\<rparr>)
                          (post (Some ''Bearer manager'')) sample_store)))
   \<and> fst (serve (sample_env\<lparr>kpiError := Some db_down, insertError := Some db_down\<rparr>)
          (post (Some ''Bearer manager'')) sample_store)
       = \<lparr>resp_status = 500, resp_body = FailureBody ''Unknown error''\<rparr>
   \<and> read_alert ''r8'' (noon - 8 * 86400000)
       \<notin> set (smart_alerts (fst (snd (serve
             (sample_env\<lparr>kpiError := Some db_down, insertError := Some db_down\<rparr>)
             (post (Some ''Bearer manager'')) sample_store))))
   \<and> resp_status (fst (serve (sample_env\<lparr>kpiError := Some db_down\<rparr>)
          (post (Some ''Bearer manager'')) sample_store)) = 200"
proof -
  let ?e = "sample_env\<lparr>kpiError := Some db_down, insertError := Some db_down\<rparr>"
  let ?e2 = "sample_env\<lparr>kpiError := Some db_down\<rparr>"
  let ?req = "post (Some ''Bearer manager'')"
  let ?evs = "authenticated_events ''u1'' @ [ConsoleLog ''User role verified:'' [LText ''manager'']]"
  have m: "req_method ?req \<noteq> ''OPTIONS''" by (simp add: post_def)
  have a: "authorize ?e ?req = Inr ?evs"
    using manager_authorized [of ?e] by simp
  have a2: "authorize ?e2 ?req = Inr ?evs"
    using manager_authorized [of ?e2] by simp
  have k: "kpiError ?e = Some db_down" and i: "insertError ?e = Some db_down"
    and d: "deleteError ?e = None" and n: "now ?e = noon"
    by (simp_all add: sample_env_fields)
  have i2: "insertError ?e2 = None" by (simp add: sample_env_fields)
  have "overdue_alert action_yesterday \<in> set (surviving ?e sample_store)"
    by (rule sample_survivor) (simp_all add: sample_env_fields)
  then have s: "surviving ?e sample_store \<noteq> []" by auto
  note t = failure_semantics [OF m a, of sample_store]
  from t k have lg: "ConsoleError ''Error fetching KPI values:'' [LError db_down]
       \<in> set (snd (snd (serve ?e ?req sample_store)))"
    by blast
  from t s i have r: "fst (serve ?e ?req sample_store)
       = \<lparr>resp_status = 500, resp_body = FailureBody (errorMessage db_down)\<rparr>"
    and st: "smart_alerts (fst (snd (serve ?e ?req sample_store))) =
              (if deleteError ?e = None
               then filter (\<lambda>a. \<not> old_read (now ?e) a) (smart_alerts sample_store)
               else smart_alerts sample_store)"
    by blast+
  have gone: "read_alert ''r8'' (noon - 8 * 86400000)
       \<notin> set (smart_alerts (fst (snd (serve ?e ?req sample_store))))"
    unfolding st
    by (simp add: sample_env_fields sample_store_def old_read_def sevenDaysAgo_def read_alert_def)
  from failure_semantics [OF m a2, of sample_store] i2
  have ok: "resp_status (fst (serve ?e2 ?req sample_store)) = 200"
    by simp
  from m k s lg r gone ok show ?thesis
    by (simp add: errorMessage_def db_down_def)
qed

text \<open>
  Four requests on the sample data: without a header, with a credential the
  authentication service rejects, with a user whose role lookup fails, and with an
  operator.
\<close>

theorem authorization_fail_fast_witness:
  "req_method (post None) \<noteq> ''OPTIONS''
   \<and> fst (serve sample_env (post None) sample_store) =
       \<lparr>resp_status = 401,
        resp_body = ErrorBody ''Unauthorized - missing authorization header''\<rparr>
   \<and> fst (serve sample_env (post (Some ''Bearer forged'')) sample_store) =
       \<lparr>resp_status = 401, resp_body = ErrorBody ''Unauthorized - invalid token''\<rparr>
   \<and> fst (serve sample_env (post (Some ''Bearer unknown'')) sample_store) =
       \<lparr>resp_status = 403, resp_body = ErrorBody ''Forbidden - unable to verify role''\<rparr>
   \<and> fst (serve sample_env (post (Some ''Bearer operator'')) sample_store) =
       \<lparr>resp_status = 403,
        resp_body = ErrorBody ''Forbidden - admin or manager role required''\<rparr>
   \<and> fst (snd (serve sample_env (post (Some ''Bearer operator'')) sample_store)) = sample_store
   \<and> filter data_access (snd (snd (serve sample_env (post (Some ''Bearer operator''))
        sample_store))) = []"
proof -
  have m: "req_method (post h) \<noteq> ''OPTIONS''" for h by (simp add: post_def)
  have h1: "req_authorization (post None) = None" by (simp add: post_def)
  have h2: "req_authorization (post (Some ''Bearer forged'')) = Some ''Bearer forged''
      \<and> ''Bearer forged'' \<noteq> []
      \<and> (snd (getUser sample_env ''Bearer forged'') \<noteq> None
          \<or> fst (getUser sample_env ''Bearer forged'') = None)"
    by (simp add: post_def sample_env_def)
  have h3: "req_authorization (post (Some ''Bearer unknown'')) = Some ''Bearer unknown''
      \<and> ''Bearer unknown'' \<noteq> []
      \<and> getUser sample_env ''Bearer unknown'' = (Some ''u3'', None)
      \<and> snd (role_single sample_env ''u3'') = Some (ErrorObject ''no rows returned'')"
    by (simp add: post_def sample_env_def)
  have h4: "req_authorization (post (Some ''Bearer operator'')) = Some ''Bearer operator''
      \<and> ''Bearer operator'' \<noteq> []
      \<and> getUser sample_env ''Bearer operator'' = (Some ''u2'', None)
      \<and> snd (role_single sample_env ''u2'') = None
      \<and> fst (role_single sample_env ''u2'') \<noteq> Some ''admin''
      \<and> fst (role_single sample_env ''u2'') \<noteq> Some ''manager''"
    by (simp add: post_def sample_env_def)
  from authorization_fail_fast [OF m, of None sample_env sample_store] h1
  have r1: "fst (serve sample_env (post None) sample_store) =
       \<lparr>resp_status = 401,
        resp_body = ErrorBody ''Unauthorized - missing authorization header''\<rparr>"
    by blast
  from authorization_fail_fast [OF m, of "Some ''Bearer forged''" sample_env sample_store] h2
  have r2: "fst (serve sample_env (post (Some ''Bearer forged'')) sample_store) =
       \<lparr>resp_status = 401, resp_body = ErrorBody ''Unauthorized - invalid token''\<rparr>"
    by blast
  from authorization_fail_fast [OF m, of "Some ''Bearer unknown''" sample_env sample_store] h3
  have r3: "fst (serve sample_env (post (Some ''Bearer unknown'')) sample_store) =
       \<lparr>resp_status = 403, resp_body = ErrorBody ''Forbidden - unable to verify role''\<rparr>"
    by blast
  note t4 = authorization_fail_fast [OF m, of "Some ''Bearer operator''" sample_env sample_store]
  from t4 h4
  have r4: "fst (serve sample_env (post (Some ''Bearer operator'')) sample_store) =
       \<lparr>resp_status = 403,
        resp_body = ErrorBody ''Forbidden - admin or manager role required''\<rparr>"
    by blast
  then have "resp_status (fst (serve sample_env (post (Some ''Bearer operator'')) sample_store))
      = 403"
    by simp
  with t4 have r5: "fst (snd (serve sample_env (post (Some ''Bearer operator'')) sample_store))
        = sample_store
      \<and> filter data_access (snd (snd (serve sample_env (post (Some ''Bearer operator''))
           sample_store))) = []"
    by blast
  from m [of None] r1 r2 r3 r4 r5 show ?thesis by blast
qed

text \<open>
  After a first run on the sample data the invariant holds. A second run whose read of
  the unread alerts fails stores every candidate again, and the invariant no longer
  holds.
\<close>

theorem dedup_read_failure_witness:
  "existingError (sample_env\<lparr>existingError := Some db_down\<rparr>) = Some db_down
   \<and> at_most_one_unread after_first_run
   \<and> surviving (sample_env\<lparr>existingError := Some db_down\<rparr>) after_first_run
       = alertsToCreate (sample_env\<lparr>existingError := Some db_down\<rparr>) after_first_run
   \<and> overdue_alert action_yesterday
       \<in> set (surviving (sample_env\<lparr>existingError := Some db_down\<rparr>) after_first_run)
   \<and> newAlertsCreated (fst (generate (sample_env\<lparr>existingError := Some db_down\<rparr>)
        after_first_run)) \<noteq> Some 0
   \<and> \<not> at_most_one_unread
         (fst (snd (generate (sample_env\<lparr>existingError := Some db_down\<rparr>) after_first_run)))"
proof -
  let ?e = "sample_env\<lparr>existingError := Some db_down\<rparr>"
  let ?c = "overdue_alert action_yesterday"
  have x: "existingError ?e = Some db_down" by simp
  have i: "insertError ?e = None" by (simp add: sample_env_fields)
  have c: "?c \<in> set (alertsToCreate ?e after_first_run)"
    by (rule after_first_run_candidate) (simp_all add: sample_env_fields)
  then have pos: "length (alertsToCreate ?e after_first_run) \<noteq> 0" by auto
  note t = dedup_read_failure [OF x, of after_first_run]
  from t have sv: "surviving ?e after_first_run = alertsToCreate ?e after_first_run"
    by blast
  from t i have r: "fst (generate ?e after_first_run) =
            \<lparr>resp_status = 200,
             resp_body = SuccessBody (length (alertsToCreate ?e after_first_run))
               (length (alertsToCreate ?e after_first_run)) 0\<rparr>"
    by blast
  from r pos have n: "newAlertsCreated (fst (generate ?e after_first_run)) \<noteq> Some 0"
    by (simp add: newAlertsCreated_def)
  from t i c first_run_stored
  have b: "\<not> at_most_one_unread (fst (snd (generate ?e after_first_run)))"
    by blast
  from x after_first_run_invariant sv c n b show ?thesis
    by (simp only: sv) simp
qed

lemma sample_ages:
  "\<forall>p \<in> set (problems_query (problems sample_store)). isOld (noon + 1000) p = isOld noon p"
  by (simp add: sample_store_def problems_query_def critical_problem_def isOld_def
      daysSinceCreation_def ms_per_day_def)

text \<open>
  Two runs on the sample data, every call succeeding, the second one a second after the
  first: the first one stores alerts, the second one none, and the invariant holds after
  the first.
\<close>

theorem second_run_creates_nothing_witness:
  "kpiError sample_env = None \<and> actionsError sample_env = None
   \<and> urgentError sample_env = None \<and> problemsError sample_env = None
   \<and> existingError sample_env = None
   \<and> existingError (sample_env\<lparr>now := noon + 1000\<rparr>) = None
   \<and> success_body (fst (generate sample_env sample_store))
   \<and> today (sample_env\<lparr>now := noon + 1000\<rparr>) = today sample_env
   \<and> list_all (\<lambda>p. isOld (now (sample_env\<lparr>now := noon + 1000\<rparr>)) p
                       = isOld (now sample_env) p)
        (problems_query (problems sample_store))
   \<and> surviving sample_env sample_store \<noteq> []
   \<and> newAlertsCreated (fst (generate (sample_env\<lparr>now := noon + 1000\<rparr>) after_first_run))
       = Some 0
   \<and> distinct (map act_id (actions sample_store))
   \<and> distinct (map pb_id (problems sample_store))
   \<and> at_most_one_unread sample_store
   \<and> at_most_one_unread after_first_run"
proof -
  let ?e' = "sample_env\<lparr>now := noon + 1000\<rparr>"
  have x': "existingError ?e' = None" and d: "today ?e' = today sample_env"
    by (simp_all add: sample_env_fields)
  have ok: "success_body (fst (generate sample_env sample_store))"
    by (simp add: generate_success_cases sample_env_fields)
  have age: "\<forall>p \<in> set (problems_query (problems sample_store)).
         isOld (now ?e') p = isOld (now sample_env) p"
    using sample_ages by (simp add: sample_env_fields)
  have "overdue_alert action_yesterday \<in> set (surviving sample_env sample_store)"
    by (rule sample_survivor) (simp_all add: sample_env_fields)
  then have ne: "surviving sample_env sample_store \<noteq> []" by auto
  note t = second_run_creates_nothing [OF sample_env_fields(3-6) sample_env_fields(8) x' ok d age]
  from t have z: "newAlertsCreated (fst (generate ?e' after_first_run)) = Some 0"
    unfolding after_first_run_def by blast
  from t sample_invariant have inv: "at_most_one_unread after_first_run"
    unfolding after_first_run_def by blast
  from age have age': "list_all (\<lambda>p. isOld (now ?e') p = isOld (now sample_env) p)
        (problems_query (problems sample_store))"
    by (simp only: list_all_iff)
  from sample_env_fields(3-6) sample_env_fields(8) x' ok d age' ne z sample_invariant inv
  show ?thesis by blast
qed

lemma aging_problem_facts:
  "pb_id aging_problem = ''p1''"
  "problems_query [aging_problem] = [aging_problem]"
  "isOld noon aging_problem = False"
  "isOld (noon + 1) aging_problem = True"
  by (simp_all add: aging_problem_def critical_problem_def problems_query_def isOld_def
      daysSinceCreation_def ms_per_day_def)

lemma aging_candidates:
  "kpiError e = None \<Longrightarrow> actionsError e = None \<Longrightarrow> urgentError e = None
   \<Longrightarrow> problemsError e = None
   \<Longrightarrow> alertsToCreate e aging_store = [problem_alert (now e) aging_problem]"
  by (simp add: alertsToCreate_eq aging_store_def problems_pass_def aging_problem_facts
      kpi_pass_def latestByKpi_def overdue_pass_def overdue_query_def urgent_pass_def
      urgent_query_def)

lemma aging_first_run:
  "surviving sample_env aging_store = [problem_alert noon aging_problem]"
proof -
  have "filter unread (smart_alerts aging_store) = []"
    by (simp add: aging_store_def)
  then show ?thesis
    by (simp add: surviving_eq aging_candidates sample_env_fields)
qed

lemma aging_second_run:
  "surviving (sample_env\<lparr>now := noon + 1\<rparr>) (fst (snd (generate sample_env aging_store)))
     = [problem_alert (noon + 1) aging_problem]"
proof -
  let ?e' = "sample_env\<lparr>now := noon + 1\<rparr>"
  let ?s2 = "fst (snd (generate sample_env aging_store))"
  have "next_id aging_store = Suc 0"
    by (simp add: aging_store_def)
  moreover have "filter unread (smart_alerts aging_store) = []"
    by (simp add: aging_store_def)
  ultimately have un: "filter unread (smart_alerts ?s2)
      = [new_row noon (Suc 0) (problem_alert noon aging_problem)]"
    by (simp add: generate_unread aging_first_run sample_env_fields)
  have k1: "row_key ` set (filter unread (smart_alerts ?s2)) = {''problem_critical-p1''}"
    unfolding un
    by (simp add: row_key_def new_row_def problem_alert_related problem_alert_def Let_def
        aging_problem_facts)
  have "alertsToCreate ?e' ?s2 = alertsToCreate ?e' aging_store"
    by (simp add: alertsToCreate_eq generate_tables)
  then have c2: "alertsToCreate ?e' ?s2 = [problem_alert (noon + 1) aging_problem]"
    by (simp add: aging_candidates sample_env_fields)
  have k2: "alert_key (problem_alert (noon + 1) aging_problem) = ''problem_unresolved-p1''"
    by (simp add: problem_alert_key aging_problem_facts)
  show ?thesis
    unfolding surviving_eq [of ?e' ?s2] c2 k1
    by (simp add: k2)
qed

text \<open>
  Two pairs of runs in which every read succeeds. In the first pair the insert fails:
  the first run is answered 500 and stores nothing, and so is the second, which has no
  \<open>newAlertsCreated\<close> at all. In the second pair every call succeeds and the second run
  reads the clock one millisecond later: the problem, 3 whole days old in the first run
  and \<open>problem_critical\<close>, is 4 whole days old in the second and
  \<open>problem_unresolved\<close>, a key no unread alert has, and \<open>newAlertsCreated\<close> is 1.
\<close>

theorem second_run_counterexample:
  "kpiError (sample_env\<lparr>insertError := Some db_down\<rparr>) = None
   \<and> actionsError (sample_env\<lparr>insertError := Some db_down\<rparr>) = None
   \<and> urgentError (sample_env\<lparr>insertError := Some db_down\<rparr>) = None
   \<and> problemsError (sample_env\<lparr>insertError := Some db_down\<rparr>) = None
   \<and> existingError (sample_env\<lparr>insertError := Some db_down\<rparr>) = None
   \<and> fst (generate (sample_env\<lparr>insertError := Some db_down\<rparr>)
        (fst (snd (generate (sample_env\<lparr>insertError := Some db_down\<rparr>) sample_store))))
       = \<lparr>resp_status = 500, resp_body = FailureBody ''Unknown error''\<rparr>
   \<and> newAlertsCreated
        (fst (generate (sample_env\<lparr>insertError := Some db_down\<rparr>)
           (fst (snd (generate (sample_env\<lparr>insertError := Some db_down\<rparr>) sample_store)))))
       \<noteq> Some 0
   \<and> kpiError sample_env = None \<and> actionsError sample_env = None
   \<and> urgentError sample_env = None \<and> problemsError sample_env = None
   \<and> existingError sample_env = None \<and> insertError sample_env = None
   \<and> success_body (fst (generate sample_env aging_store))
   \<and> newAlertsCreated
        (fst (generate (sample_env\<lparr>now := noon + 1\<rparr>)
           (fst (snd (generate sample_env aging_store)))))
       = Some 1"
proof -
  let ?e = "sample_env\<lparr>insertError := Some db_down\<rparr>"
  have i: "insertError ?e = Some db_down" by simp
  have "overdue_alert action_yesterday \<in> set (surviving ?e sample_store)"
    by (rule sample_survivor) (simp_all add: sample_env_fields)
  then have ne: "surviving ?e sample_store \<noteq> []" by auto
  have r: "fst (generate ?e (fst (snd (generate ?e sample_store))))
      = \<lparr>resp_status = 500, resp_body = FailureBody ''Unknown error''\<rparr>"
    using failed_insert_repeats(2) [OF i ne]
    by (simp add: catch_response_def errorMessage_def db_down_def)
  then have n: "newAlertsCreated (fst (generate ?e (fst (snd (generate ?e sample_store)))))
      \<noteq> Some 0"
    by (simp add: newAlertsCreated_def)
  have ok: "success_body (fst (generate sample_env aging_store))"
    by (simp add: generate_success_cases sample_env_fields)
  have one: "newAlertsCreated
        (fst (generate (sample_env\<lparr>now := noon + 1\<rparr>)
           (fst (snd (generate sample_env aging_store)))))
       = Some 1"
    by (simp add: generate_response aging_second_run newAlertsCreated_def sample_env_fields)
  from r n ok one show ?thesis by (simp add: sample_env_fields)
qed

end
